theory Spec2Isabelle
  imports Complex_Main "HOL-Library.AList"
begin

section \<open>Data model\<close>

text \<open>
  Times are Python floats in the source: IEEE doubles. A finite double is a real number,
  and comparing two doubles or taking their minimum or maximum is exact; so times are
  real numbers here, and \<open><\<close>, \<open>min\<close> and \<open>max\<close> are those of the reals. The sum and the
  difference of two doubles are rounded. The rounded addition and subtraction are the
  two operations of an \<open>arith\<close>, which every function that adds or subtracts times
  takes as its first argument. Nothing is assumed of the two operations beyond what a
  statement says, so what is proved for every \<open>arith\<close> holds for the arithmetic of
  doubles. \<open>exact\<close> has the operations of the reals; the arithmetic of doubles agrees
  with it wherever operands and result are doubles, as for the small multiples of 1/2 in
  the examples.
\<close>

record arith =
  fadd :: "real \<Rightarrow> real \<Rightarrow> real"
  fsub :: "real \<Rightarrow> real \<Rightarrow> real"

definition exact :: arith where
  "exact = \<lparr>fadd = (\<lambda>x y. x + y), fsub = (\<lambda>x y. x - y)\<rparr>"

text \<open>
  The text of a segment is a Python \<open>str\<close> whose characters \<open>strip\<close> looks at: it is
  the list of the code points of its characters. Speaker labels, emotion names and
  keywords are \<open>str\<close> values that the code only compares, joins and passes on; they are
  strings.

  The values the speech recogniser and the diariser hand over are only read by the
  code, so they are records with the fields the code reads. \<open>seg['start']\<close>,
  \<open>seg['end']\<close> and \<open>seg['text']\<close> of a Whisper segment are \<open>seg_start\<close>,
  \<open>seg_end\<close> and \<open>seg_text\<close>; a track of the diarisation, iterated as
  \<open>for turn, _, speaker in diarization.itertracks(yield_label=True)\<close>, is a
  record of \<open>turn.start\<close>, \<open>turn.end\<close> and the label. A diarisation is the list of
  its tracks in the order \<open>itertracks\<close> yields them.
\<close>

record whisper_seg =
  seg_start :: real
  seg_end :: real
  seg_text :: "nat list"

record track =
  turn_start :: real
  turn_end :: real
  speaker :: string

text \<open>
  The dictionaries the code builds and extends are association lists in insertion
  order, which is the iteration order of a Python \<open>dict\<close>. \<open>d[k] = v\<close> is
  \<open>AList.update k v d\<close>: it replaces the value in place when the key is there and
  appends the pair otherwise. The values stored under the keys of a segment are
  numbers, strings, texts, lists of strings, lists of numbers, the feature dictionary of
  \<open>extract_audio_features\<close>, and \<open>str(x)\<close> of such a value, whose digits are not
  spelled out.
\<close>

record features =
  mfccs :: "real list"
  chroma :: "real list"
  rms_energy :: real

datatype pyval =
    Num real
  | Str string
  | Text "nat list"
  | StrList "string list"
  | NumList "real list"
  | Features features
  | Repr pyval

type_synonym pydict = "(string \<times> pyval) list"

datatype error =
    ValueError
  | KeyError
  | IndexError
  | TypeError
  | AttributeError
  | RuntimeError
  | FileNotFoundError
  | OSError

text \<open>\<open>d.get(k, default)\<close>.\<close>

definition dict_get :: "('k \<times> 'v) list \<Rightarrow> 'k \<Rightarrow> 'v \<Rightarrow> 'v" where
  "dict_get d k dflt = (case map_of d k of None \<Rightarrow> dflt | Some v \<Rightarrow> v)"

text \<open>
  \<open>max(iterable, key=f)\<close> keeps the first item and replaces it only by an item whose
  key is strictly greater, so among several maximal items the first one met wins. On an
  empty iterable it raises \<open>ValueError\<close>.
\<close>

fun max_from :: "('a \<Rightarrow> 'b::linorder) \<Rightarrow> 'a \<Rightarrow> 'a list \<Rightarrow> 'a" where
  "max_from key best [] = best"
| "max_from key best (x # xs) = max_from key (if key best < key x then x else best) xs"

definition py_max :: "('a \<Rightarrow> 'b::linorder) \<Rightarrow> 'a list \<Rightarrow> error + 'a" where
  "py_max key xs = (case xs of [] \<Rightarrow> Inl ValueError | x # rest \<Rightarrow> Inr (max_from key x rest))"

text \<open>
  \<open>str.strip()\<close> without arguments removes the leading and the trailing characters for
  which \<open>str.isspace\<close> holds. These are the code points U+0009 to U+000D, U+001C to
  U+0020, U+0085, U+00A0, U+1680, U+2000 to U+200A, U+2028, U+2029, U+202F, U+205F and
  U+3000.
\<close>

definition isspace :: "nat \<Rightarrow> bool" where
  "isspace c \<longleftrightarrow>
     (9 \<le> c \<and> c \<le> 13) \<or> (28 \<le> c \<and> c \<le> 32) \<or> c = 133 \<or> c = 160 \<or> c = 5760 \<or>
     (8192 \<le> c \<and> c \<le> 8202) \<or> c = 8232 \<or> c = 8233 \<or> c = 8239 \<or> c = 8287 \<or> c = 12288"

definition strip :: "nat list \<Rightarrow> nat list" where
  "strip s = rev (dropWhile isspace (rev (dropWhile isspace s)))"

text \<open>The code points of a string of ASCII characters.\<close>

definition ascii :: "string \<Rightarrow> nat list" where
  "ascii s = map of_char s"

section \<open>The aligner of pipeline2.py\<close>

text \<open>
  The body of the inner loop of \<open>map_speakers_to_segments\<close>:
  \<open>overlap_duration = max(0, min(end_whisper, turn.end) - max(start_whisper, turn.start))\<close>.
\<close>

definition overlap_duration :: "arith \<Rightarrow> real \<Rightarrow> real \<Rightarrow> track \<Rightarrow> real" where
  "overlap_duration ar start_whisper end_whisper t =
     max 0 (fsub ar (min end_whisper (turn_end t)) (max start_whisper (turn_start t)))"

text \<open>The inner loop: every track with a positive overlap appends its label and the overlap.\<close>

fun overlapping_speakers :: "arith \<Rightarrow> real \<Rightarrow> real \<Rightarrow> track list \<Rightarrow> (string \<times> real) list" where
  "overlapping_speakers ar start_whisper end_whisper [] = []"
| "overlapping_speakers ar start_whisper end_whisper (t # ts) =
     (if overlap_duration ar start_whisper end_whisper t > 0
      then (speaker t, overlap_duration ar start_whisper end_whisper t)
             # overlapping_speakers ar start_whisper end_whisper ts
      else overlapping_speakers ar start_whisper end_whisper ts)"

text \<open>
  \<open>for speaker, duration in overlapping_speakers:
       speaker_counts[speaker] = speaker_counts.get(speaker, 0) + duration\<close>
\<close>

fun speaker_counts ::
  "arith \<Rightarrow> (string \<times> real) list \<Rightarrow> (string \<times> real) list \<Rightarrow> (string \<times> real) list" where
  "speaker_counts ar counts [] = counts"
| "speaker_counts ar counts ((sp, duration) # rest) =
     speaker_counts ar (AList.update sp (fadd ar (dict_get counts sp 0) duration) counts) rest"

text \<open>
  The speaker of one segment: \<open>"Unknown"\<close> unless some track overlaps, and otherwise
  \<open>max(speaker_counts, key=speaker_counts.get)\<close>, which iterates the keys of the
  dictionary in insertion order.
\<close>

definition speaker_id :: "arith \<Rightarrow> real \<Rightarrow> real \<Rightarrow> track list \<Rightarrow> error + string" where
  "speaker_id ar start_whisper end_whisper diarization =
     (let ov = overlapping_speakers ar start_whisper end_whisper diarization in
      if ov \<noteq> [] then
        (let counts = speaker_counts ar [] ov in
         py_max (\<lambda>k. dict_get counts k 0) (map fst counts))
      else Inr ''Unknown'')"

text \<open>
  The outer loop appends one dictionary per Whisper segment; an exception in the body
  leaves the function.
\<close>

fun map_speakers_to_segments ::
  "arith \<Rightarrow> whisper_seg list \<Rightarrow> track list \<Rightarrow> error + pydict list" where
  "map_speakers_to_segments ar [] diarization = Inr []"
| "map_speakers_to_segments ar (seg # segs) diarization =
     (case speaker_id ar (seg_start seg) (seg_end seg) diarization of
        Inl e \<Rightarrow> Inl e
      | Inr sp \<Rightarrow>
          (case map_speakers_to_segments ar segs diarization of
             Inl e \<Rightarrow> Inl e
           | Inr mapped \<Rightarrow>
               Inr ([(''start'', Num (seg_start seg)), (''end'', Num (seg_end seg)),
                     (''text'', Text (strip (seg_text seg))), (''speaker'', Str sp)] # mapped)))"

section \<open>The aligner of pipeline.py\<close>

text \<open>
  The older script collects the label of every track with
  \<open>start < turn.end and end > turn.start\<close> and takes
  \<open>max(set(overlapping), key=overlapping.count)\<close>. The text is copied as it is.

  Python does not fix the iteration order of a set of strings: it follows the hashes of
  the strings, which CPython salts anew in every process. The order is therefore a
  parameter \<open>iter_set\<close>, giving for the list a set is built from the order in which
  the set is iterated; \<open>set_order\<close> is all that is known of it.
\<close>

definition set_order :: "(string list \<Rightarrow> string list) \<Rightarrow> bool" where
  "set_order iter_set = (\<forall>xs. distinct (iter_set xs) \<and> set (iter_set xs) = set xs)"

fun pipeline_overlapping :: "real \<Rightarrow> real \<Rightarrow> track list \<Rightarrow> string list" where
  "pipeline_overlapping start end' [] = []"
| "pipeline_overlapping start end' (t # ts) =
     (if start < turn_end t \<and> end' > turn_start t
      then speaker t # pipeline_overlapping start end' ts
      else pipeline_overlapping start end' ts)"

definition pipeline_speaker ::
  "(string list \<Rightarrow> string list) \<Rightarrow> real \<Rightarrow> real \<Rightarrow> track list \<Rightarrow> error + string" where
  "pipeline_speaker iter_set start end' diarization =
     (let overlapping = pipeline_overlapping start end' diarization in
      if overlapping \<noteq> [] then py_max (count_list overlapping) (iter_set overlapping)
      else Inr ''Unknown'')"

fun pipeline_map_speakers_to_segments ::
  "(string list \<Rightarrow> string list) \<Rightarrow> whisper_seg list \<Rightarrow> track list \<Rightarrow> error + pydict list" where
  "pipeline_map_speakers_to_segments iter_set [] diarization = Inr []"
| "pipeline_map_speakers_to_segments iter_set (seg # segs) diarization =
     (case pipeline_speaker iter_set (seg_start seg) (seg_end seg) diarization of
        Inl e \<Rightarrow> Inl e
      | Inr sp \<Rightarrow>
          (case pipeline_map_speakers_to_segments iter_set segs diarization of
             Inl e \<Rightarrow> Inl e
           | Inr mapped \<Rightarrow>
               Inr ([(''start'', Num (seg_start seg)), (''end'', Num (seg_end seg)),
                     (''text'', Text (seg_text seg)), (''speaker'', Str sp)] # mapped)))"

section \<open>The aligner of python\_diarization.py\<close>

text \<open>
  Here the diarisation is the list of tuples \<open>(turn.start, turn.end, speaker)\<close> that
  \<open>diarize_pyannote\<close> returns. \<open>align_segments\<close> keeps the tuples \<open>seg\<close> with
  \<open>not (s["end"] <= seg[0] or s["start"] >= seg[1])\<close> and names the speaker of the
  single tuple with the longest overlap, prefixed with \<open>Speaker_\<close>.
\<close>

definition align_speaker ::
  "arith \<Rightarrow> real \<Rightarrow> real \<Rightarrow> (real \<times> real \<times> string) list \<Rightarrow> error + string" where
  "align_speaker ar s_start s_end diarization =
     (let overlapping =
            filter (\<lambda>seg. \<not> (s_end \<le> fst seg \<or> s_start \<ge> fst (snd seg))) diarization in
      if overlapping \<noteq> [] then
        (case py_max (\<lambda>seg. fsub ar (min s_end (fst (snd seg))) (max s_start (fst seg)))
                overlapping of
           Inl e \<Rightarrow> Inl e
         | Inr best_seg \<Rightarrow> Inr (''Speaker_'' @ snd (snd best_seg)))
      else Inr ''Speaker_unknown'')"

fun align_segments ::
  "arith \<Rightarrow> whisper_seg list \<Rightarrow> (real \<times> real \<times> string) list \<Rightarrow> error + pydict list" where
  "align_segments ar [] diarization = Inr []"
| "align_segments ar (s # ts) diarization =
     (case align_speaker ar (seg_start s) (seg_end s) diarization of
        Inl e \<Rightarrow> Inl e
      | Inr sp \<Rightarrow>
          (case align_segments ar ts diarization of
             Inl e \<Rightarrow> Inl e
           | Inr aligned \<Rightarrow>
               Inr ([(''start'', Num (seg_start s)), (''end'', Num (seg_end s)),
                     (''text'', Text (strip (seg_text s))), (''speaker'', Str sp)] # aligned)))"

section \<open>The audio normalisers\<close>

text \<open>
  An audio clip is what \<open>pydub.AudioSegment\<close> knows of it: the number of channels,
  the frame rate in Hz, the sample width in bytes and the length in milliseconds.
  Of pydub the model takes: a slice \<open>audio[:n]\<close> with \<open>n\<close> not negative ends at
  \<open>min(n, len(audio))\<close> and keeps channels, frame rate and sample width;
  \<open>set_channels\<close> and \<open>set_frame_rate\<close> set the one parameter;
  \<open>export(path, format="wav")\<close> writes a PCM WAV file with these parameters.

  Writing a file has one of three outcomes: the file is written; or it cannot be opened
  and an exception is raised, which leaves what was there; or it is opened, which empties
  it, and an exception is raised before the writing is complete, which leaves an
  unfinished file.
\<close>

record audio =
  channels :: nat
  frame_rate :: nat
  sample_width :: nat
  duration_ms :: nat

datatype write_outcome = Written | Not_opened error | Broken_off error

definition slice_to :: "audio \<Rightarrow> nat \<Rightarrow> audio" where
  "slice_to a n = a\<lparr>duration_ms := min n (duration_ms a)\<rparr>"





section \<open>The files of a run\<close>

text \<open>
  \<open>run_full_pipeline\<close> keeps one file per step in the output directory:
  \<open>{filename_base}_trimmed.wav\<close> and \<open>{filename_base}_{step_name}.json\<close> for the eight
  step names below.

  A WAV file that exists holds a clip or is damaged, for instance unfinished.

  A JSON file that exists cannot be read (any exception but \<open>json.JSONDecodeError\<close>),
  or does not parse (\<open>json.JSONDecodeError\<close>), or parses. A file that parses holds
  \<open>null\<close>, or a number or a truth value, or a value of the shape the step writes. Other
  values that parse, such as a string or a list of another shape, are not part of this
  model.
\<close>

datatype step =
    Trimmed_wav
  | Whisper_raw
  | Diarization_raw
  | Mapped_segments
  | Audio_features
  | Text_embeddings
  | Text_emotions
  | Speech_emotions
  | Keywords

datatype wav_file = Damaged_wav | Clip audio

datatype 'a json_file = Unreadable | Unparseable | Holds_null | Holds_scalar | Parsed 'a

record whisper_result =
  result_text :: "nat list"
  result_segments :: "whisper_seg list"

record output_data =
  audio_file :: string
  full_transcript :: "nat list"
  segments :: "pydict list"

text \<open>
  What \<open>save_final_results\<close> leaves in a file: the JSON document, the header line of
  the CSV summary with the rows written under it, the transcript text, or an unfinished
  file.
\<close>

datatype final_file =
    Json_document output_data
  | Csv_summary "pydict list"
  | Transcript "nat list"
  | Unfinished

record files =
  trimmed_wav :: "wav_file option"
  whisper_raw_json :: "whisper_result json_file option"
  diarization_raw_json :: "track list json_file option"
  mapped_segments_json :: "pydict list json_file option"
  audio_features_json :: "features list json_file option"
  text_embeddings_json :: "real list list json_file option"
  text_emotions_json :: "string list json_file option"
  speech_emotions_json :: "string list json_file option"
  keywords_json :: "string list list json_file option"
  final_files :: "(string \<times> final_file) list"

text \<open>
  The surroundings of a run are its parameters. \<open>float_ops\<close> is the arithmetic of the
  floats. \<open>makedirs\<close> is \<open>os.makedirs(output_dir, exist_ok=True)\<close>, which
  \<open>preprocess_audio\<close>, \<open>save_intermediate_json\<close> and \<open>save_final_results\<close> each call
  first: for each of these calls, named by the first file the function goes on to write,
  it gives the exception raised, if any. \<open>write_file\<close> is the outcome of writing the file
  of the given name. Each collaborator returns its result or raises. \<open>itertracks\<close> is the
  order in which the \<open>Annotation\<close> rebuilt from the diarisation list yields its tracks.
\<close>

record env =
  float_ops :: arith
  makedirs :: "string \<Rightarrow> error option"
  write_file :: "string \<Rightarrow> write_outcome"
  from_file :: "error + audio"
  transcribe_audio :: "wav_file \<Rightarrow> error + whisper_result"
  perform_speaker_diarization :: "wav_file \<Rightarrow> error + track list"
  itertracks :: "track list \<Rightarrow> track list"
  extract_audio_features :: "wav_file \<Rightarrow> pydict list \<Rightarrow> error + features list"
  get_text_embeddings :: "pyval list \<Rightarrow> error + real list list"
  run_text_emotion_analysis :: "pyval list \<Rightarrow> error + string list"
  run_speech_emotion_recognition :: "wav_file \<Rightarrow> pydict list \<Rightarrow> error + string list"
  extract_keywords :: "pyval list \<Rightarrow> error + string list list"

text \<open>
  The state of a run: the files, the steps whose computation has been called so far, and
  the steps whose function raised: \<open>preprocess_audio\<close> for the first step, whether it
  caught the exception or not, and the computation for the others. The code keeps neither
  list; it prints the exception in the \<open>except\<close> branch.
\<close>

record state =
  files :: files
  calls :: "step list"
  raised :: "step list"

fun step_name :: "step \<Rightarrow> string" where
  "step_name Trimmed_wav = ''trimmed''"
| "step_name Whisper_raw = ''whisper_raw''"
| "step_name Diarization_raw = ''diarization_raw''"
| "step_name Mapped_segments = ''mapped_segments''"
| "step_name Audio_features = ''audio_features''"
| "step_name Text_embeddings = ''text_embeddings''"
| "step_name Text_emotions = ''text_emotions''"
| "step_name Speech_emotions = ''speech_emotions''"
| "step_name Keywords = ''keywords''"

text \<open>
  \<open>load_intermediate_json\<close> returns what \<open>json.load\<close> returns, and \<open>None\<close> when the file
  is missing and in both \<open>except\<close> branches. \<open>json.load\<close> returns \<open>None\<close> for a file that
  holds \<open>null\<close>. What is loaded otherwise is a number or truth value, or a value of the
  shape the step writes.
\<close>

datatype 'a loaded = Scalar | Value 'a

fun load_intermediate_json :: "'a json_file option \<Rightarrow> 'a loaded option" where
  "load_intermediate_json None = None"
| "load_intermediate_json (Some Unreadable) = None"
| "load_intermediate_json (Some Unparseable) = None"
| "load_intermediate_json (Some Holds_null) = None"
| "load_intermediate_json (Some Holds_scalar) = Some Scalar"
| "load_intermediate_json (Some (Parsed data)) = Some (Value data)"

text \<open>
  \<open>save_intermediate_json\<close> calls \<open>os.makedirs\<close> outside its \<open>try\<close>, and inside it
  opens the file for writing and dumps the data. The result is the exception of
  \<open>os.makedirs\<close> or what the file is afterwards, given what it was before: the data, the
  old file when it cannot be opened, and an unfinished text, which does not parse, when
  the dump breaks off. The caller ignores the return value.
\<close>

definition save_intermediate_json ::
  "env \<Rightarrow> string \<Rightarrow> step \<Rightarrow> 'a \<Rightarrow> 'a json_file option \<Rightarrow> error + 'a json_file option" where
  "save_intermediate_json env filename_base s data old =
     (let filepath = filename_base @ ''_'' @ step_name s @ ''.json'' in
      case makedirs env filepath of
        Some e \<Rightarrow> Inl e
      | None \<Rightarrow>
          Inr (case write_file env filepath of
                 Written \<Rightarrow> Some (Parsed data)
               | Not_opened e \<Rightarrow> old
               | Broken_off e \<Rightarrow> Some Unparseable))"

section \<open>The steps of run\_full\_pipeline\<close>

text \<open>
  \<open>preprocess_audio\<close> calls \<open>os.makedirs\<close> outside its \<open>try\<close>, returns the path of
  the WAV file when the file exists, and otherwise decodes, slices and exports inside
  the \<open>try\<close>; it returns \<open>None\<close> after an exception there.
\<close>

definition preprocess_audio ::
  "env \<Rightarrow> string \<Rightarrow> nat \<Rightarrow> state \<Rightarrow> (error + string option) \<times> state" where
  "preprocess_audio env filename_base max_duration_sec st =
     (let output_wav_path = filename_base @ ''_trimmed.wav'' in
      case makedirs env output_wav_path of
        Some e \<Rightarrow> (Inl e, st\<lparr>raised := raised st @ [Trimmed_wav]\<rparr>)
      | None \<Rightarrow>
     (case trimmed_wav (files st) of
        Some existing \<Rightarrow> (Inr (Some output_wav_path), st)
      | None \<Rightarrow>
          (case from_file env of
             Inl e \<Rightarrow> (Inr None, st\<lparr>calls := calls st @ [Trimmed_wav],
                                      raised := raised st @ [Trimmed_wav]\<rparr>)
           | Inr audio \<Rightarrow>
               (let trimmed_audio = slice_to audio (max_duration_sec * 1000) in
                case write_file env output_wav_path of
                  Written \<Rightarrow>
                    (Inr (Some output_wav_path),
                     st\<lparr>files := (files st)\<lparr>trimmed_wav := Some (Clip trimmed_audio)\<rparr>,
                        calls := calls st @ [Trimmed_wav]\<rparr>)
                | Not_opened e \<Rightarrow>
                    (Inr None, st\<lparr>calls := calls st @ [Trimmed_wav],
                                   raised := raised st @ [Trimmed_wav]\<rparr>)
                | Broken_off e \<Rightarrow>
                    (Inr None,
                     st\<lparr>files := (files st)\<lparr>trimmed_wav := Some Damaged_wav\<rparr>,
                        calls := calls st @ [Trimmed_wav],
                        raised := raised st @ [Trimmed_wav]\<rparr>)))))"

text \<open>
  Steps 2 to 8 all have the form
  \<open>loaded = load_intermediate_json(...); if loaded is None: x = compute(...);
  save_intermediate_json(x, ...) else: x = loaded\<close>
  inside a \<open>try\<close>. \<open>load_or_compute\<close> is this form, for the file read by \<open>get\<close> and
  written by \<open>upd\<close>; \<open>compute\<close> is the result of the computation, used only when
  nothing was loaded.
\<close>

definition load_or_compute ::
  "env \<Rightarrow> string \<Rightarrow> step \<Rightarrow> (files \<Rightarrow> 'a json_file option) \<Rightarrow>
   (('a json_file option \<Rightarrow> 'a json_file option) \<Rightarrow> files \<Rightarrow> files) \<Rightarrow>
   (error + 'a) \<Rightarrow> state \<Rightarrow> (error + 'a loaded) \<times> state" where
  "load_or_compute env filename_base s get upd compute st =
     (case load_intermediate_json (get (files st)) of
        Some loaded \<Rightarrow> (Inr loaded, st)
      | None \<Rightarrow>
          (case compute of
             Inl e \<Rightarrow> (Inl e, st\<lparr>calls := calls st @ [s], raised := raised st @ [s]\<rparr>)
           | Inr data \<Rightarrow>
               (case save_intermediate_json env filename_base s data (get (files st)) of
                  Inl e \<Rightarrow> (Inl e, st\<lparr>calls := calls st @ [s]\<rparr>)
                | Inr saved \<Rightarrow>
                    (Inr (Value data),
                     st\<lparr>files := upd (\<lambda>old. saved) (files st), calls := calls st @ [s]\<rparr>))))"

text \<open>
  The first use of what a step holds as the list or dictionary it should be:
  \<open>whisper_result["segments"]\<close>, \<open>for item in diarization_list\<close>,
  \<open>for seg in diarized_segments\<close>, \<open>len(keywords)\<close>. On a number or truth value each
  of them raises \<open>TypeError\<close>. Steps 2, 3 and 4 do this inside their \<open>try\<close>.
\<close>

fun loaded_value :: "'a loaded \<Rightarrow> error + 'a" where
  "loaded_value Scalar = Inl TypeError"
| "loaded_value (Value x) = Inr x"

definition use_loaded :: "(error + 'a loaded) \<times> state \<Rightarrow> (error + 'a) \<times> state" where
  "use_loaded r = (case r of (Inl e, st) \<Rightarrow> (Inl e, st) | (Inr l, st) \<Rightarrow> (loaded_value l, st))"

text \<open>
  A loop or comprehension whose body may raise: the results in order, or the first
  exception.
\<close>

fun collect :: "('a \<Rightarrow> error + 'b) \<Rightarrow> 'a list \<Rightarrow> error + 'b list" where
  "collect f [] = Inr []"
| "collect f (x # xs) =
     (case f x of
        Inl e \<Rightarrow> Inl e
      | Inr y \<Rightarrow> (case collect f xs of Inl e \<Rightarrow> Inl e | Inr ys \<Rightarrow> Inr (y # ys)))"

text \<open>\<open>d[k]\<close> of a dictionary and \<open>xs[i]\<close> of a list, for \<open>i\<close> from a \<open>range\<close>.\<close>

definition dict_item :: "string \<Rightarrow> pydict \<Rightarrow> error + pyval" where
  "dict_item k d = (case map_of d k of None \<Rightarrow> Inl KeyError | Some v \<Rightarrow> Inr v)"

definition list_item :: "'a list \<Rightarrow> nat \<Rightarrow> error + 'a" where
  "list_item xs i = (if i < length xs then Inr (xs ! i) else Inl IndexError)"

text \<open>
  The block "Combine all results into the segments". The body of its loop copies
  \<open>diarized_segments[i]\<close> and sets the five fields.
\<close>

definition seg_data ::
  "pydict list \<Rightarrow> features list \<Rightarrow> real list list \<Rightarrow> string list \<Rightarrow> string list \<Rightarrow>
   string list list \<Rightarrow> nat \<Rightarrow> error + pydict" where
  "seg_data diarized_segments audio_features text_embeddings text_emotions speech_emotions
     keywords i =
     (case list_item diarized_segments i of Inl e \<Rightarrow> Inl e | Inr seg \<Rightarrow>
      case list_item audio_features i of Inl e \<Rightarrow> Inl e | Inr af \<Rightarrow>
      case list_item text_embeddings i of Inl e \<Rightarrow> Inl e | Inr te \<Rightarrow>
      case list_item text_emotions i of Inl e \<Rightarrow> Inl e | Inr tem \<Rightarrow>
      case list_item speech_emotions i of Inl e \<Rightarrow> Inl e | Inr sem \<Rightarrow>
      case list_item keywords i of Inl e \<Rightarrow> Inl e | Inr kw \<Rightarrow>
        Inr (AList.update ''keywords'' (StrList kw)
            (AList.update ''speech_emotion'' (Str sem)
            (AList.update ''text_emotion'' (Str tem)
            (AList.update ''text_embedding'' (NumList te)
            (AList.update ''audio_features'' (Features af) seg))))))"

definition min_len ::
  "pydict list \<Rightarrow> features list \<Rightarrow> real list list \<Rightarrow> string list \<Rightarrow> string list \<Rightarrow>
   string list list \<Rightarrow> nat" where
  "min_len diarized_segments audio_features text_embeddings text_emotions speech_emotions
     keywords =
     Min {length diarized_segments, length audio_features, length text_embeddings,
          length text_emotions, length speech_emotions, length keywords}"

text \<open>The warning the block prints, with the two numbers it shows.\<close>

datatype warning = Discrepancy nat nat

definition combine_results ::
  "pydict list \<Rightarrow> features list \<Rightarrow> real list list \<Rightarrow> string list \<Rightarrow> string list \<Rightarrow>
   string list list \<Rightarrow> (error + pydict list) \<times> warning list" where
  "combine_results diarized_segments audio_features text_embeddings text_emotions
     speech_emotions keywords =
     (let n = min_len diarized_segments audio_features text_embeddings text_emotions
                speech_emotions keywords in
      (collect (seg_data diarized_segments audio_features text_embeddings text_emotions
                  speech_emotions keywords) [0..<n],
       if n < length diarized_segments then [Discrepancy n (length diarized_segments)] else []))"

text \<open>
  \<open>simplified_segment.pop("audio_features", None)\<close> and
  \<open>simplified_segment.pop("text_embedding", None)\<close> on a copy of every segment.
\<close>

definition simplified_segments :: "pydict list \<Rightarrow> pydict list" where
  "simplified_segments final_segments =
     map (\<lambda>segment. AList.delete ''text_embedding'' (AList.delete ''audio_features'' segment))
       final_segments"

section \<open>save\_final\_results\<close>

text \<open>
  The row of the CSV summary for one segment. \<open>csv_row.pop("audio_features", {})\<close> gives
  the feature dictionary or the empty dictionary, on which \<open>get\<close> returns the defaults;
  on another value \<open>get\<close> raises \<open>AttributeError\<close>. A list under \<open>keywords\<close> is joined
  with \<open>"; "\<close>, which raises \<open>TypeError\<close> on a number in the list, and a list under
  \<open>text_embedding\<close> is replaced by its \<open>str\<close>. \<open>DictWriter.writerow\<close> raises
  \<open>ValueError\<close> for a row with a key that is not in the header.
\<close>

definition csv_headers :: "string list" where
  "csv_headers =
     [''start'', ''end'', ''speaker'', ''text'', ''text_emotion'', ''speech_emotion'',
      ''keywords'', ''audio_features_mfccs'', ''audio_features_chroma'',
      ''audio_features_rms_energy'', ''text_embedding'']"

fun join :: "string \<Rightarrow> string list \<Rightarrow> string" where
  "join sep [] = []"
| "join sep [x] = x"
| "join sep (x # y # ys) = x @ sep @ join sep (y # ys)"

definition feature_columns :: "pydict \<Rightarrow> error + pydict" where
  "feature_columns seg =
     (let csv_row = AList.delete ''audio_features'' seg;
          columns = (\<lambda>m c r.
            AList.update ''audio_features_rms_energy'' r
              (AList.update ''audio_features_chroma'' (Repr c)
              (AList.update ''audio_features_mfccs'' (Repr m) csv_row)))
      in case map_of seg ''audio_features'' of
           None \<Rightarrow> Inr (columns (NumList []) (NumList []) (Num 0))
         | Some (Features audio_features) \<Rightarrow>
             Inr (columns (NumList (mfccs audio_features)) (NumList (chroma audio_features))
                    (Num (rms_energy audio_features)))
         | Some other \<Rightarrow> Inl AttributeError)"

definition join_keywords :: "pydict \<Rightarrow> error + pydict" where
  "join_keywords csv_row =
     (case map_of csv_row ''keywords'' of
        Some (StrList kw) \<Rightarrow> Inr (AList.update ''keywords'' (Str (join ''; '' kw)) csv_row)
      | Some (NumList xs) \<Rightarrow>
          (if xs = [] then Inr (AList.update ''keywords'' (Str []) csv_row) else Inl TypeError)
      | other \<Rightarrow> Inr csv_row)"

definition embedding_text :: "pydict \<Rightarrow> pydict" where
  "embedding_text csv_row =
     (case map_of csv_row ''text_embedding'' of
        Some (NumList xs) \<Rightarrow> AList.update ''text_embedding'' (Repr (NumList xs)) csv_row
      | Some (StrList xs) \<Rightarrow> AList.update ''text_embedding'' (Repr (StrList xs)) csv_row
      | other \<Rightarrow> csv_row)"

definition csv_row :: "pydict \<Rightarrow> error + pydict" where
  "csv_row seg =
     (case feature_columns seg of
        Inl e \<Rightarrow> Inl e
      | Inr row1 \<Rightarrow>
          (case join_keywords row1 of
             Inl e \<Rightarrow> Inl e
           | Inr row2 \<Rightarrow>
               (let row3 = embedding_text row2 in
                if set (map fst row3) \<subseteq> set csv_headers then Inr row3 else Inl ValueError)))"

text \<open>
  The loop over the segments stands in a \<open>try\<close> with the file open: an exception ends
  it, and the file keeps the rows written before.
\<close>

fun csv_rows :: "pydict list \<Rightarrow> pydict list" where
  "csv_rows [] = []"
| "csv_rows (seg # segmented_data) =
     (case csv_row seg of Inl e \<Rightarrow> [] | Inr row \<Rightarrow> row # csv_rows segmented_data)"

text \<open>
  \<open>save_final_results\<close> calls \<open>os.makedirs\<close> outside every \<open>try\<close> and then writes
  three files named after its \<open>filename_base\<close>, each in its own \<open>try\<close>; the CSV only
  when there are segments.
\<close>

definition write_final :: "env \<Rightarrow> string \<Rightarrow> final_file \<Rightarrow> files \<Rightarrow> files" where
  "write_final env path content fs =
     (case write_file env path of
        Written \<Rightarrow> fs\<lparr>final_files := AList.update path content (final_files fs)\<rparr>
      | Not_opened e \<Rightarrow> fs
      | Broken_off e \<Rightarrow> fs\<lparr>final_files := AList.update path Unfinished (final_files fs)\<rparr>)"

definition save_final_results ::
  "env \<Rightarrow> string \<Rightarrow> output_data \<Rightarrow> pydict list \<Rightarrow> files \<Rightarrow> error + files" where
  "save_final_results env filename_base full_output_data segmented_data fs =
     (case makedirs env (filename_base @ ''_final_output.json'') of
        Some e \<Rightarrow> Inl e
      | None \<Rightarrow>
          Inr (let fs1 = write_final env (filename_base @ ''_final_output.json'')
                           (Json_document full_output_data) fs;
                   fs2 = (if segmented_data \<noteq> []
                          then write_final env (filename_base @ ''_summary.csv'')
                                 (Csv_summary (csv_rows segmented_data)) fs1
                          else fs1)
               in write_final env (filename_base @ ''_transcript.txt'')
                    (Transcript (full_transcript full_output_data)) fs2))"

section \<open>run\_full\_pipeline\<close>

text \<open>
  The function returns \<open>{}\<close> where it stops and the full document at the end. The call
  of \<open>preprocess_audio\<close>, the combining block and the call of \<open>save_final_results\<close>
  stand outside every \<open>try\<close>, so an exception there leaves the function.
\<close>

datatype outcome = Empty_dict | Document output_data | Uncaught error

text \<open>
  A \<open>try\<close> block whose \<open>except\<close> branch prints "Pipeline stopped" and returns \<open>{}\<close>.
\<close>

definition try_step :: "(error + 'a) \<times> state \<Rightarrow> ('a \<Rightarrow> state \<Rightarrow> outcome \<times> state) \<Rightarrow> outcome \<times> state" where
  "try_step r continue =
     (case r of (Inl e, st) \<Rightarrow> (Empty_dict, st) | (Inr x, st) \<Rightarrow> continue x st)"

text \<open>
  From the combining block to the \<open>return\<close>. The block begins with the \<open>len\<close> of what
  steps 5 to 8 hold. The statements after the first \<open>return full_output_data\<close> are never
  reached and have no counterpart here.
\<close>

definition finish ::
  "env \<Rightarrow> string \<Rightarrow> string \<Rightarrow> whisper_result \<Rightarrow> pydict list \<Rightarrow> features list loaded \<Rightarrow>
   real list list loaded \<Rightarrow> string list loaded \<Rightarrow> string list loaded \<Rightarrow>
   string list list loaded \<Rightarrow> state \<Rightarrow> outcome \<times> state" where
  "finish env input_basename filename_base whisper_result diarized_segments audio_features
     text_embeddings text_emotions speech_emotions keywords st =
     (case loaded_value audio_features of Inl e \<Rightarrow> (Uncaught e, st) | Inr audio_features \<Rightarrow>
      case loaded_value text_embeddings of Inl e \<Rightarrow> (Uncaught e, st) | Inr text_embeddings \<Rightarrow>
      case loaded_value text_emotions of Inl e \<Rightarrow> (Uncaught e, st) | Inr text_emotions \<Rightarrow>
      case loaded_value speech_emotions of Inl e \<Rightarrow> (Uncaught e, st) | Inr speech_emotions \<Rightarrow>
      case loaded_value keywords of Inl e \<Rightarrow> (Uncaught e, st) | Inr keywords \<Rightarrow>
      case fst (combine_results diarized_segments audio_features text_embeddings text_emotions
                  speech_emotions keywords) of
        Inl e \<Rightarrow> (Uncaught e, st)
      | Inr final_segments \<Rightarrow>
          (let full_output_data =
                 \<lparr>audio_file = input_basename,
                  full_transcript = strip (result_text whisper_result),
                  segments = final_segments\<rparr>;
               simplified_output_data =
                 \<lparr>audio_file = input_basename,
                  full_transcript = strip (result_text whisper_result),
                  segments = simplified_segments final_segments\<rparr>
           in case save_final_results env (filename_base @ ''_no_embeddings'')
                     simplified_output_data (simplified_segments final_segments) (files st) of
                Inl e \<Rightarrow> (Uncaught e, st)
              | Inr fs \<Rightarrow> (Document full_output_data, st\<lparr>files := fs\<rparr>)))"

text \<open>Steps 5 to 8, each stopping the pipeline when it raises.\<close>

definition enrich ::
  "env \<Rightarrow> string \<Rightarrow> string \<Rightarrow> wav_file \<Rightarrow> whisper_result \<Rightarrow> pydict list \<Rightarrow> pyval list \<Rightarrow>
   state \<Rightarrow> outcome \<times> state" where
  "enrich env input_basename filename_base wav whisper_result diarized_segments texts st4 =
     try_step (load_or_compute env filename_base Audio_features audio_features_json
                 audio_features_json_update
                 (extract_audio_features env wav diarized_segments) st4)
       (\<lambda>audio_features st5.
     try_step (load_or_compute env filename_base Text_embeddings text_embeddings_json
                 text_embeddings_json_update (get_text_embeddings env texts) st5)
       (\<lambda>text_embeddings st6.
     try_step (load_or_compute env filename_base Text_emotions text_emotions_json
                 text_emotions_json_update (run_text_emotion_analysis env texts) st6)
       (\<lambda>text_emotions st7a.
     try_step (load_or_compute env filename_base Speech_emotions speech_emotions_json
                 speech_emotions_json_update
                 (run_speech_emotion_recognition env wav diarized_segments) st7a)
       (\<lambda>speech_emotions st7b.
     try_step (load_or_compute env filename_base Keywords keywords_json
                 keywords_json_update (extract_keywords env texts) st7b)
       (\<lambda>keywords st8.
          finish env input_basename filename_base whisper_result diarized_segments
            audio_features text_embeddings text_emotions speech_emotions keywords st8)))))"

text \<open>
  The whole function. \<open>input_basename\<close> is \<open>os.path.basename(input_audio_path)\<close> and
  \<open>filename_base\<close> is that name without its extension. In step 4 the texts are read
  off the mapped segments inside the \<open>try\<close>, after the file has been saved.
\<close>

definition run_full_pipeline :: "env \<Rightarrow> string \<Rightarrow> string \<Rightarrow> nat \<Rightarrow> state \<Rightarrow> outcome \<times> state" where
  "run_full_pipeline env input_basename filename_base max_duration_sec st0 =
     (case preprocess_audio env filename_base max_duration_sec st0 of
        (Inl e, st1) \<Rightarrow> (Uncaught e, st1)
      | (Inr None, st1) \<Rightarrow> (Empty_dict, st1)
      | (Inr (Some wav_path), st1) \<Rightarrow>
     (case trimmed_wav (files st1) of
        None \<Rightarrow> (Empty_dict, st1)
      | Some wav \<Rightarrow>
     try_step (use_loaded (load_or_compute env filename_base Whisper_raw whisper_raw_json
                 whisper_raw_json_update (transcribe_audio env wav) st1))
       (\<lambda>whisper_result st2.
     try_step (use_loaded (load_or_compute env filename_base Diarization_raw
                 diarization_raw_json diarization_raw_json_update
                 (perform_speaker_diarization env wav) st2))
       (\<lambda>diarization_list st3.
     try_step (use_loaded (load_or_compute env filename_base Mapped_segments
                 mapped_segments_json mapped_segments_json_update
                 (map_speakers_to_segments (float_ops env) (result_segments whisper_result)
                    (itertracks env diarization_list)) st3))
       (\<lambda>diarized_segments st4.
     try_step (collect (dict_item ''text'') diarized_segments, st4)
       (\<lambda>texts st4.
          if diarized_segments = [] then (Empty_dict, st4)
          else enrich env input_basename filename_base wav whisper_result diarized_segments
                 texts st4))))))"

section \<open>What the claims speak of\<close>

text \<open>
  The total overlap of a speaker with a segment: the overlap durations of all tracks
  of that speaker that overlap the segment, summed. The sum is the one of floats: the
  durations are added one after the other, in the order of the tracks, beginning with
  \<open>0 + duration\<close>.
\<close>

definition total_overlap :: "arith \<Rightarrow> real \<Rightarrow> real \<Rightarrow> track list \<Rightarrow> string \<Rightarrow> real" where
  "total_overlap ar start_whisper end_whisper diarization sp =
     foldl (fadd ar) 0 (map (overlap_duration ar start_whisper end_whisper)
       (filter (\<lambda>t. speaker t = sp \<and> 0 < overlap_duration ar start_whisper end_whisper t)
          diarization))"

text \<open>The same for the tuples of python\_diarization.py.\<close>

definition total_overlap_tuples ::
  "arith \<Rightarrow> real \<Rightarrow> real \<Rightarrow> (real \<times> real \<times> string) list \<Rightarrow> string \<Rightarrow> real" where
  "total_overlap_tuples ar s_start s_end diarization sp =
     foldl (fadd ar) 0
       (map (\<lambda>seg. max 0 (fsub ar (min s_end (fst (snd seg))) (max s_start (fst seg))))
          (filter (\<lambda>seg. snd (snd seg) = sp) diarization))"

text \<open>
  An addition under which the sum of two numbers that are not negative is not negative.
  The addition of doubles is one: it rounds the exact sum to a double nearest to it, and 0
  is a double.
\<close>

definition nonneg_sums :: "arith \<Rightarrow> bool" where
  "nonneg_sums ar \<longleftrightarrow> (\<forall>x y. 0 \<le> x \<and> 0 \<le> y \<longrightarrow> 0 \<le> fadd ar x y)"

text \<open>
  The labels of the tracks that overlap a segment, in iteration order, and the speaker
  an aligner names when ties go to the label met first.
\<close>

definition overlapping_labels :: "arith \<Rightarrow> real \<Rightarrow> real \<Rightarrow> track list \<Rightarrow> string list" where
  "overlapping_labels ar start_whisper end_whisper diarization =
     map speaker (filter (\<lambda>t. 0 < overlap_duration ar start_whisper end_whisper t) diarization)"

definition first_maximal_speaker :: "arith \<Rightarrow> real \<Rightarrow> real \<Rightarrow> track list \<Rightarrow> string" where
  "first_maximal_speaker ar start_whisper end_whisper diarization =
     (case List.find
             (\<lambda>k. \<forall>k' \<in> set (overlapping_labels ar start_whisper end_whisper diarization).
                    total_overlap ar start_whisper end_whisper diarization k'
                      \<le> total_overlap ar start_whisper end_whisper diarization k)
             (overlapping_labels ar start_whisper end_whisper diarization) of
        None \<Rightarrow> ''Unknown''
      | Some sp \<Rightarrow> sp)"

text \<open>\<open>t'\<close> is \<open>t\<close> without its leading and trailing whitespace.\<close>

definition trimmed_of :: "nat list \<Rightarrow> nat list \<Rightarrow> bool" where
  "trimmed_of t' t =
     ((\<exists>pre suf. t = pre @ t' @ suf \<and> list_all isspace pre \<and> list_all isspace suf) \<and>
      (t' = [] \<or> (\<not> isspace (hd t') \<and> \<not> isspace (last t'))))"

section \<open>Definitions for the statements and proofs\<close>

text \<open>
  The tracks of the alignment example of the specification; a segment that two turns of
  one speaker overlap briefly and one turn of another speaker at length; and two
  speakers who overlap a segment equally.
\<close>

definition spec_turns :: "track list" where
  "spec_turns =
     [\<lparr>turn_start = 0, turn_end = 1, speaker = ''A''\<rparr>,
      \<lparr>turn_start = 1, turn_end = 2, speaker = ''B''\<rparr>,
      \<lparr>turn_start = 3/2, turn_end = 2, speaker = ''A''\<rparr>]"

definition frequent_turns :: "track list" where
  "frequent_turns =
     [\<lparr>turn_start = 0, turn_end = 1, speaker = ''A''\<rparr>,
      \<lparr>turn_start = 2, turn_end = 3, speaker = ''A''\<rparr>,
      \<lparr>turn_start = 3, turn_end = 10, speaker = ''B''\<rparr>]"

definition tie_turns :: "track list" where
  "tie_turns =
     [\<lparr>turn_start = 0, turn_end = 1, speaker = ''B''\<rparr>,
      \<lparr>turn_start = 1, turn_end = 2, speaker = ''A''\<rparr>]"

text \<open>
  An arithmetic that rounds, sums being rounded down to whole numbers, and three tracks
  for it: over the segment from 0 to 10 the durations 3/2 and 2 of speaker A add up to 3,
  as much as speaker B has.
\<close>

definition floored :: arith where
  "floored = \<lparr>fadd = (\<lambda>x y. of_int \<lfloor>x + y\<rfloor>), fsub = (\<lambda>x y. x - y)\<rparr>"

definition rounded_turns :: "track list" where
  "rounded_turns =
     [\<lparr>turn_start = 0, turn_end = 3, speaker = ''B''\<rparr>,
      \<lparr>turn_start = 4, turn_end = 11/2, speaker = ''A''\<rparr>,
      \<lparr>turn_start = 6, turn_end = 8, speaker = ''A''\<rparr>]"

text \<open>The keys of the dictionary stand in the order of their first occurrence.\<close>

definition add_key :: "'k \<Rightarrow> 'k list \<Rightarrow> 'k list" where
  "add_key k ks = (if k \<in> set ks then ks else ks @ [k])"

text \<open>
  What the cache holds for a step: nothing; a file that is damaged, which for a JSON
  file means that it cannot be read, does not parse or holds \<open>null\<close>; a JSON file that
  holds a number or a truth value; or a record.
\<close>

datatype record_state = Missing | Damaged | Misshapen | Valid

fun json_state :: "'a json_file option \<Rightarrow> record_state" where
  "json_state None = Missing"
| "json_state (Some Unreadable) = Damaged"
| "json_state (Some Unparseable) = Damaged"
| "json_state (Some Holds_null) = Damaged"
| "json_state (Some Holds_scalar) = Misshapen"
| "json_state (Some (Parsed data)) = Valid"

fun wav_state :: "wav_file option \<Rightarrow> record_state" where
  "wav_state None = Missing"
| "wav_state (Some Damaged_wav) = Damaged"
| "wav_state (Some (Clip a)) = Valid"

fun record_status :: "files \<Rightarrow> step \<Rightarrow> record_state" where
  "record_status fs Trimmed_wav = wav_state (trimmed_wav fs)"
| "record_status fs Whisper_raw = json_state (whisper_raw_json fs)"
| "record_status fs Diarization_raw = json_state (diarization_raw_json fs)"
| "record_status fs Mapped_segments = json_state (mapped_segments_json fs)"
| "record_status fs Audio_features = json_state (audio_features_json fs)"
| "record_status fs Text_embeddings = json_state (text_embeddings_json fs)"
| "record_status fs Text_emotions = json_state (text_emotions_json fs)"
| "record_status fs Speech_emotions = json_state (speech_emotions_json fs)"
| "record_status fs Keywords = json_state (keywords_json fs)"

text \<open>The steps in the order in which \<open>run_full_pipeline\<close> goes through them.\<close>

definition pipeline_steps :: "step list" where
  "pipeline_steps =
     [Trimmed_wav, Whisper_raw, Diarization_raw, Mapped_segments, Audio_features,
      Text_embeddings, Text_emotions, Speech_emotions, Keywords]"

text \<open>
  A run to evaluate: a directory that can be written, collaborators that answer with
  fixed values for a recording of two segments and raise when the WAV file is damaged,
  and an output directory without files.
\<close>

definition demo_transcript :: whisper_result where
  "demo_transcript =
     \<lparr>result_text = ascii '' hello bye'',
      result_segments = [\<lparr>seg_start = 0, seg_end = 2, seg_text = ascii '' hello''\<rparr>,
                         \<lparr>seg_start = 10, seg_end = 11, seg_text = ascii '' bye''\<rparr>]\<rparr>"

definition on_clip :: "'a \<Rightarrow> wav_file \<Rightarrow> error + 'a" where
  "on_clip result wav = (case wav of Damaged_wav \<Rightarrow> Inl RuntimeError | Clip a \<Rightarrow> Inr result)"

definition demo_env :: env where
  "demo_env =
     \<lparr>float_ops = exact,
      makedirs = (\<lambda>path. None),
      write_file = (\<lambda>path. Written),
      from_file = Inr \<lparr>channels = 2, frame_rate = 44100, sample_width = 2, duration_ms = 400000\<rparr>,
      transcribe_audio = on_clip demo_transcript,
      perform_speaker_diarization = on_clip spec_turns,
      itertracks = (\<lambda>tracks. tracks),
      extract_audio_features =
        (\<lambda>wav segs. on_clip (map (\<lambda>seg. \<lparr>mfccs = [], chroma = [], rms_energy = 0\<rparr>) segs) wav),
      get_text_embeddings = (\<lambda>texts. Inr (map (\<lambda>t. [0]) texts)),
      run_text_emotion_analysis = (\<lambda>texts. Inr (map (\<lambda>t. ''joy'') texts)),
      run_speech_emotion_recognition = (\<lambda>wav segs. on_clip (map (\<lambda>seg. ''neu'') segs) wav),
      extract_keywords = (\<lambda>texts. Inr (map (\<lambda>t. [''hello'']) texts))\<rparr>"

definition no_files :: files where
  "no_files =
     \<lparr>trimmed_wav = None, whisper_raw_json = None, diarization_raw_json = None,
      mapped_segments_json = None, audio_features_json = None, text_embeddings_json = None,
      text_emotions_json = None, speech_emotions_json = None, keywords_json = None,
      final_files = []\<rparr>"

text \<open>Five mapped segments, for the length example of the specification.\<close>

definition lengths5 :: "pydict list" where
  "lengths5 = replicate 5 [(''start'', Num 0), (''end'', Num 1), (''text'', Text (ascii ''hi'')), (''speaker'', Str ''A'')]"

text \<open>The dictionary the combining loop builds for one index.\<close>

definition merged :: "pydict \<Rightarrow> features \<Rightarrow> real list \<Rightarrow> string \<Rightarrow> string \<Rightarrow> string list \<Rightarrow> pydict" where
  "merged seg af te tem sem kw =
     AList.update ''keywords'' (StrList kw)
       (AList.update ''speech_emotion'' (Str sem)
       (AList.update ''text_emotion'' (Str tem)
       (AList.update ''text_embedding'' (NumList te)
       (AList.update ''audio_features'' (Features af) seg))))"

text \<open>
  \<open>get\<close> and \<open>upd\<close> read and write the file of step \<open>s\<close> and nothing else.
\<close>

definition slot_of ::
  "step \<Rightarrow> (files \<Rightarrow> 'a json_file option) \<Rightarrow>
   (('a json_file option \<Rightarrow> 'a json_file option) \<Rightarrow> files \<Rightarrow> files) \<Rightarrow> bool" where
  "slot_of s get upd \<longleftrightarrow>
     s \<noteq> Trimmed_wav \<and>
     (\<forall>fs. record_status fs s = json_state (get fs)) \<and>
     (\<forall>f fs s'. s' \<noteq> s \<longrightarrow> record_status (upd f fs) s' = record_status fs s') \<and>
     (\<forall>f fs. get (upd f fs) = f (get fs)) \<and>
     (\<forall>f fs. final_files (upd f fs) = final_files fs) \<and>
     (\<forall>f fs. trimmed_wav (upd f fs) = trimmed_wav fs)"

text \<open>What the file of a step is after \<open>save_intermediate_json\<close> has gone through.\<close>

definition saved_as :: "env \<Rightarrow> string \<Rightarrow> step \<Rightarrow> 'a \<Rightarrow> 'a json_file option \<Rightarrow> 'a json_file option" where
  "saved_as env fb s d old =
     (case write_file env (fb @ ''_'' @ step_name s @ ''.json'') of
        Written \<Rightarrow> Some (Parsed d)
      | Not_opened e \<Rightarrow> old
      | Broken_off e \<Rightarrow> Some Unparseable)"

text \<open>
  The three files \<open>save_final_results\<close> writes for the simplified document, and what a
  file holds after it has been written with some content, given what it held before.
\<close>

definition no_embeddings_names :: "string \<Rightarrow> string set" where
  "no_embeddings_names fb =
     {fb @ ''_no_embeddings_final_output.json'', fb @ ''_no_embeddings_summary.csv'',
      fb @ ''_no_embeddings_transcript.txt''}"

definition file_after ::
  "env \<Rightarrow> string \<Rightarrow> final_file \<Rightarrow> final_file option \<Rightarrow> final_file option" where
  "file_after env path content before =
     (case write_file env path of
        Written \<Rightarrow> Some content
      | Not_opened e \<Rightarrow> before
      | Broken_off e \<Rightarrow> Some Unfinished)"

text \<open>The document the run of \<open>demo_env\<close> returns, and its segments simplified.\<close>

definition demo_document :: output_data where
  "demo_document =
     \<lparr>audio_file = ''talk.mp3'', full_transcript = ascii ''hello bye'',
      segments =
        [[(''start'', Num 0), (''end'', Num 2), (''text'', Text (ascii ''hello'')), (''speaker'', Str ''A''),
          (''audio_features'', Features \<lparr>mfccs = [], chroma = [], rms_energy = 0\<rparr>),
          (''text_embedding'', NumList [0]), (''text_emotion'', Str ''joy''),
          (''speech_emotion'', Str ''neu''), (''keywords'', StrList [''hello''])],
         [(''start'', Num 10), (''end'', Num 11), (''text'', Text (ascii ''bye'')), (''speaker'', Str ''Unknown''),
          (''audio_features'', Features \<lparr>mfccs = [], chroma = [], rms_energy = 0\<rparr>),
          (''text_embedding'', NumList [0]), (''text_emotion'', Str ''joy''),
          (''speech_emotion'', Str ''neu''), (''keywords'', StrList [''hello''])]]\<rparr>"

definition demo_simplified :: "pydict list" where
  "demo_simplified =
     [[(''start'', Num 0), (''end'', Num 2), (''text'', Text (ascii ''hello'')), (''speaker'', Str ''A''),
       (''text_emotion'', Str ''joy''), (''speech_emotion'', Str ''neu''),
       (''keywords'', StrList [''hello''])],
      [(''start'', Num 10), (''end'', Num 11), (''text'', Text (ascii ''bye'')), (''speaker'', Str ''Unknown''),
       (''text_emotion'', Str ''joy''), (''speech_emotion'', Str ''neu''),
       (''keywords'', StrList [''hello''])]]"

text \<open>The files of the first four steps, as a first run leaves them.\<close>

definition demo_mapped :: "pydict list" where
  "demo_mapped =
     [[(''start'', Num 0), (''end'', Num 2), (''text'', Text (ascii ''hello'')), (''speaker'', Str ''A'')],
      [(''start'', Num 10), (''end'', Num 11), (''text'', Text (ascii ''bye'')), (''speaker'', Str ''Unknown'')]]"

definition four_cached :: files where
  "four_cached =
     no_files
       \<lparr>trimmed_wav := Some (Clip \<lparr>channels = 2, frame_rate = 44100, sample_width = 2,
                                   duration_ms = 300000\<rparr>),
        whisper_raw_json := Some (Parsed demo_transcript),
        diarization_raw_json := Some (Parsed spec_turns),
        mapped_segments_json := Some (Parsed demo_mapped)\<rparr>"

text \<open>
  The ways in which a JSON file is damaged, and a missing record of a step replaced by
  a file damaged in one of these ways; a file that is there is left alone.
\<close>

datatype damage_kind = Not_readable | Not_json | Json_null

fun damaged_file :: "damage_kind \<Rightarrow> 'a json_file" where
  "damaged_file Not_readable = Unreadable"
| "damaged_file Not_json = Unparseable"
| "damaged_file Json_null = Holds_null"

definition spoil :: "damage_kind \<Rightarrow> 'a json_file option \<Rightarrow> 'a json_file option" where
  "spoil b x = (case x of None \<Rightarrow> Some (damaged_file b) | Some y \<Rightarrow> Some y)"

fun damage :: "damage_kind \<Rightarrow> step \<Rightarrow> files \<Rightarrow> files" where
  "damage b Trimmed_wav fs = fs"
| "damage b Whisper_raw fs = whisper_raw_json_update (spoil b) fs"
| "damage b Diarization_raw fs = diarization_raw_json_update (spoil b) fs"
| "damage b Mapped_segments fs = mapped_segments_json_update (spoil b) fs"
| "damage b Audio_features fs = audio_features_json_update (spoil b) fs"
| "damage b Text_embeddings fs = text_embeddings_json_update (spoil b) fs"
| "damage b Text_emotions fs = text_emotions_json_update (spoil b) fs"
| "damage b Speech_emotions fs = speech_emotions_json_update (spoil b) fs"
| "damage b Keywords fs = keywords_json_update (spoil b) fs"

definition damage_state :: "damage_kind \<Rightarrow> step \<Rightarrow> state \<Rightarrow> state" where
  "damage_state b s st = st\<lparr>files := damage b s (files st)\<rparr>"


text \<open>The rows of the CSV summary of the run of \<open>demo_env\<close>.\<close>

definition demo_rows :: "pydict list" where
  "demo_rows =
     [[(''start'', Num 0), (''end'', Num 2), (''text'', Text (ascii ''hello'')), (''speaker'', Str ''A''),
       (''text_emotion'', Str ''joy''), (''speech_emotion'', Str ''neu''),
       (''keywords'', Str ''hello''), (''audio_features_mfccs'', Repr (NumList [])),
       (''audio_features_chroma'', Repr (NumList [])), (''audio_features_rms_energy'', Num 0)],
      [(''start'', Num 10), (''end'', Num 11), (''text'', Text (ascii ''bye'')), (''speaker'', Str ''Unknown''),
       (''text_emotion'', Str ''joy''), (''speech_emotion'', Str ''neu''),
       (''keywords'', Str ''hello''), (''audio_features_mfccs'', Repr (NumList [])),
       (''audio_features_chroma'', Repr (NumList [])), (''audio_features_rms_energy'', Num 0)]]"

section \<open>Lemmas on the aligner\<close>

text \<open>\<open>max_from\<close> returns an item of the list with the greatest key, and the first such.\<close>

lemma max_from_mem: "max_from key b xs \<in> set (b # xs)"
  by (induction xs arbitrary: b) auto

lemma max_from_ge: "x \<in> set (b # xs) \<Longrightarrow> key x \<le> key (max_from key b xs)"
proof (induction xs arbitrary: b x)
  case Nil
  then show ?case by simp
next
  case (Cons y ys)
  let ?b' = "if key b < key y then y else b"
  have step: "key z \<le> key (max_from key ?b' ys)" if "z \<in> set (?b' # ys)" for z
    using Cons.IH [of z ?b'] that by blast
  have "key ?b' \<le> key (max_from key ?b' ys)"
    using step [of ?b'] by simp
  moreover have "key b \<le> key ?b'" "key y \<le> key ?b'" by auto
  moreover have "z \<in> set ys \<Longrightarrow> key z \<le> key (max_from key ?b' ys)" for z
    using step [of z] by simp
  ultimately show ?case using Cons.prems by auto
qed

lemma max_from_first:
  "List.find (\<lambda>z. key (max_from key b xs) \<le> key z) (b # xs) = Some (max_from key b xs)"
proof (induction xs arbitrary: b)
  case Nil
  then show ?case by simp
next
  case (Cons y ys)
  let ?b' = "if key b < key y then y else b"
  let ?r = "max_from key ?b' ys"
  have IH: "List.find (\<lambda>z. key ?r \<le> key z) (?b' # ys) = Some ?r"
    by (rule Cons.IH)
  have ge: "key ?b' \<le> key ?r"
    using max_from_ge [of ?b' ?b' ys key] by simp
  show ?case
  proof (cases "key b < key y")
    case True
    with ge have "\<not> key ?r \<le> key b" by auto
    with IH True show ?thesis by simp
  next
    case False
    show ?thesis
    proof (cases "key ?r \<le> key b")
      case True
      with IH False show ?thesis by simp
    next
      case nb: False
      with False have "\<not> key ?r \<le> key y" by auto
      with IH False nb show ?thesis by simp
    qed
  qed
qed

lemma dict_get_speaker_counts:
  "dict_get (speaker_counts ar counts ov) k 0 =
     foldl (fadd ar) (dict_get counts k 0) (map snd (filter (\<lambda>p. fst p = k) ov))"
proof (induction ar counts ov rule: speaker_counts.induct)
  case (1 ar counts)
  then show ?case by simp
next
  case (2 ar counts sp duration rest)
  then show ?case
    by (simp add: dict_get_def update_conv')
qed

lemma overlapping_speakers_filter:
  "map snd (filter (\<lambda>p. fst p = k) (overlapping_speakers ar s e d)) =
     map (overlap_duration ar s e) (filter (\<lambda>t. speaker t = k \<and> 0 < overlap_duration ar s e t) d)"
  by (induction d) auto

lemma overlapping_speakers_keys:
  "map fst (overlapping_speakers ar s e d) =
     map speaker (filter (\<lambda>t. 0 < overlap_duration ar s e t) d)"
  by (induction d) auto

lemma counts_total:
  "dict_get (speaker_counts ar [] (overlapping_speakers ar s e d)) k 0 = total_overlap ar s e d k"
proof -
  have "dict_get ([] :: (string \<times> real) list) k 0 = 0" by (simp add: dict_get_def)
  then show ?thesis
    by (simp add: dict_get_speaker_counts overlapping_speakers_filter total_overlap_def)
qed

lemma speaker_counts_keys:
  "map fst (speaker_counts ar counts ov) = fold add_key (map fst ov) (map fst counts)"
proof (induction ar counts ov rule: speaker_counts.induct)
  case (1 ar counts)
  then show ?case by simp
next
  case (2 ar counts sp duration rest)
  then show ?case by (simp add: update_keys add_key_def)
qed

lemma find_snoc:
  "List.find P (xs @ [k]) =
     (case List.find P xs of Some x \<Rightarrow> Some x | None \<Rightarrow> if P k then Some k else None)"
  by (induction xs) auto

lemma find_add_key:
  "List.find P (add_key k ks) =
     (case List.find P ks of Some x \<Rightarrow> Some x | None \<Rightarrow> if k \<notin> set ks \<and> P k then Some k else None)"
proof (cases "k \<in> set ks")
  case True
  then show ?thesis by (simp add: add_key_def split: option.splits)
next
  case False
  then show ?thesis by (simp add: add_key_def find_snoc split: option.splits)
qed

lemma find_fold_add_key:
  "List.find P (fold add_key xs ks) =
     (case List.find P ks of Some x \<Rightarrow> Some x | None \<Rightarrow> List.find P xs)"
proof (induction xs arbitrary: ks)
  case Nil
  then show ?case by (simp split: option.splits)
next
  case (Cons x xs)
  show ?case
  proof (cases "List.find P ks")
    case None
    then have "x \<in> set ks \<Longrightarrow> \<not> P x" by (auto simp: find_None_iff)
    with None show ?thesis by (auto simp: Cons.IH find_add_key)
  next
    case (Some a)
    then show ?thesis by (simp add: Cons.IH find_add_key)
  qed
qed

lemma set_fold_add_key: "set (fold add_key xs ks) = set ks \<union> set xs"
  by (induction xs arbitrary: ks) (auto simp: add_key_def)

text \<open>
  A speaker without an overlapping track has the total 0, and no total is negative when
  sums of numbers that are not negative are not.
\<close>

lemma foldl_nonneg:
  assumes "nonneg_sums ar" and "0 \<le> a" and "\<forall>x \<in> set xs. 0 \<le> x"
  shows "0 \<le> foldl (fadd ar) a xs"
  using assms(2,3)
proof (induction xs arbitrary: a)
  case Nil
  then show ?case by simp
next
  case (Cons x xs)
  from assms(1) Cons.prems have "0 \<le> fadd ar a x"
    by (simp add: nonneg_sums_def)
  with Cons show ?case by simp
qed

lemma total_overlap_nonneg: "nonneg_sums ar \<Longrightarrow> 0 \<le> total_overlap ar s e d k"
  unfolding total_overlap_def by (rule foldl_nonneg) (auto simp: overlap_duration_def)

lemma total_overlap_unlisted:
  "k \<notin> set (overlapping_labels ar s e d) \<Longrightarrow> total_overlap ar s e d k = 0"
proof -
  assume "k \<notin> set (overlapping_labels ar s e d)"
  then have "filter (\<lambda>t. speaker t = k \<and> 0 < overlap_duration ar s e t) d = []"
    by (auto simp: overlapping_labels_def filter_empty_conv)
  then show ?thesis by (simp add: total_overlap_def)
qed

lemma overlapping_speakers_Nil:
  "overlapping_speakers ar s e d = [] \<longleftrightarrow> (\<forall>t \<in> set d. \<not> 0 < overlap_duration ar s e t)"
  by (induction d) auto

lemma overlapping_labels_Nil:
  "overlapping_labels ar s e d = [] \<longleftrightarrow> (\<forall>t \<in> set d. \<not> 0 < overlap_duration ar s e t)"
  by (auto simp: overlapping_labels_def filter_empty_conv)

lemma speaker_counts_key_list:
  "map fst (speaker_counts ar [] (overlapping_speakers ar s e d)) =
     fold add_key (overlapping_labels ar s e d) []"
  by (simp add: speaker_counts_keys overlapping_speakers_keys overlapping_labels_def)

text \<open>Without an overlapping track the speaker is the sentinel.\<close>

lemma speaker_id_no_overlap:
  assumes "\<forall>t \<in> set d. \<not> 0 < overlap_duration ar s e t"
  shows "speaker_id ar s e d = Inr ''Unknown''"
  using assms by (simp add: speaker_id_def overlapping_speakers_Nil)

text \<open>
  With one, it is the label of an overlapping track whose total is maximal among the
  labels of the overlapping tracks, and the first such label.
\<close>

lemma speaker_id_overlap:
  assumes "\<exists>t \<in> set d. 0 < overlap_duration ar s e t"
  shows "\<exists>sp. speaker_id ar s e d = Inr sp \<and>
    sp \<in> set (overlapping_labels ar s e d) \<and>
    (\<forall>k \<in> set (overlapping_labels ar s e d). total_overlap ar s e d k \<le> total_overlap ar s e d sp) \<and>
    List.find (\<lambda>k. total_overlap ar s e d sp \<le> total_overlap ar s e d k)
      (overlapping_labels ar s e d) = Some sp"
proof -
  let ?ov = "overlapping_speakers ar s e d"
  let ?counts = "speaker_counts ar [] ?ov"
  let ?keys = "map fst ?counts"
  let ?key = "\<lambda>k. dict_get ?counts k 0"
  from assms have ne: "?ov \<noteq> []"
    by (simp add: overlapping_speakers_Nil)
  then have labels_ne: "overlapping_labels ar s e d \<noteq> []"
    by (simp add: overlapping_labels_Nil overlapping_speakers_Nil)
  have keys_set: "set ?keys = set (overlapping_labels ar s e d)"
    by (simp only: speaker_counts_key_list set_fold_add_key) simp
  with labels_ne have "?keys \<noteq> []"
    by (metis set_empty)
  then obtain k0 ks where keys: "?keys = k0 # ks"
    by (cases ?keys) auto
  define sp where "sp = max_from ?key k0 ks"
  have res: "speaker_id ar s e d = Inr sp"
    using ne keys by (simp add: speaker_id_def py_max_def sp_def Let_def)
  have mem: "sp \<in> set (overlapping_labels ar s e d)"
  proof -
    have "sp \<in> set (k0 # ks)"
      unfolding sp_def by (rule max_from_mem)
    also have "set (k0 # ks) = set (overlapping_labels ar s e d)"
      using keys keys_set by simp
    finally show ?thesis .
  qed
  have ge_listed: "total_overlap ar s e d k \<le> total_overlap ar s e d sp"
    if "k \<in> set (overlapping_labels ar s e d)" for k
  proof -
    from that keys keys_set have "k \<in> set (k0 # ks)" by simp
    then have "?key k \<le> ?key sp"
      unfolding sp_def by (rule max_from_ge)
    then show ?thesis by (simp only: counts_total)
  qed
  have "List.find (\<lambda>z. ?key sp \<le> ?key z) (k0 # ks) = Some sp"
    unfolding sp_def by (rule max_from_first)
  then have "List.find (\<lambda>z. total_overlap ar s e d sp \<le> total_overlap ar s e d z)
               (fold add_key (overlapping_labels ar s e d) []) = Some sp"
    by (simp only: counts_total flip: keys speaker_counts_key_list)
  then have first: "List.find (\<lambda>z. total_overlap ar s e d sp \<le> total_overlap ar s e d z)
               (overlapping_labels ar s e d) = Some sp"
    by (simp add: find_fold_add_key)
  from res mem ge_listed first show ?thesis by blast
qed

lemma speaker_id_total: "\<exists>sp. speaker_id ar s e d = Inr sp"
proof (cases "\<exists>t \<in> set d. 0 < overlap_duration ar s e t")
  case True
  then show ?thesis using speaker_id_overlap [of d ar s e] by blast
next
  case False
  then show ?thesis by (simp add: speaker_id_no_overlap)
qed

text \<open>The outer loop never raises and keeps length and order.\<close>

lemma map_speakers_to_segments_shape:
  "\<exists>mapped. map_speakers_to_segments ar segs d = Inr mapped \<and> length mapped = length segs \<and>
     (\<forall>i < length segs.
        \<exists>sp. speaker_id ar (seg_start (segs ! i)) (seg_end (segs ! i)) d = Inr sp \<and>
          mapped ! i =
            [(''start'', Num (seg_start (segs ! i))), (''end'', Num (seg_end (segs ! i))),
             (''text'', Text (strip (seg_text (segs ! i)))), (''speaker'', Str sp)])"
proof (induction segs)
  case Nil
  then show ?case by simp
next
  case (Cons seg segs)
  then obtain mapped where m: "map_speakers_to_segments ar segs d = Inr mapped"
    and len: "length mapped = length segs"
    and at: "\<And>i. i < length segs \<Longrightarrow>
        \<exists>sp. speaker_id ar (seg_start (segs ! i)) (seg_end (segs ! i)) d = Inr sp \<and>
          mapped ! i =
            [(''start'', Num (seg_start (segs ! i))), (''end'', Num (seg_end (segs ! i))),
             (''text'', Text (strip (seg_text (segs ! i)))), (''speaker'', Str sp)]"
    by blast
  obtain sp where sp: "speaker_id ar (seg_start seg) (seg_end seg) d = Inr sp"
    using speaker_id_total by blast
  let ?first = "[(''start'', Num (seg_start seg)), (''end'', Num (seg_end seg)),
             (''text'', Text (strip (seg_text seg))), (''speaker'', Str sp)]"
  have res: "map_speakers_to_segments ar (seg # segs) d = Inr (?first # mapped)"
    using m sp by simp
  have "\<exists>sp'. speaker_id ar (seg_start ((seg # segs) ! i)) (seg_end ((seg # segs) ! i)) d = Inr sp' \<and>
          (?first # mapped) ! i =
            [(''start'', Num (seg_start ((seg # segs) ! i))), (''end'', Num (seg_end ((seg # segs) ! i))),
             (''text'', Text (strip (seg_text ((seg # segs) ! i)))), (''speaker'', Str sp')]"
    if "i < length (seg # segs)" for i
  proof (cases i)
    case 0
    then show ?thesis using sp by simp
  next
    case (Suc j)
    with that have "j < length segs" by simp
    from at [OF this] Suc show ?thesis by simp
  qed
  with res len show ?case by simp
qed

text \<open>What \<open>strip\<close> removes.\<close>

lemma strip_trimmed: "trimmed_of (strip t) t"
proof -
  let ?a = "takeWhile isspace t"
  let ?m = "dropWhile isspace t"
  let ?b = "takeWhile isspace (rev ?m)"
  let ?r = "dropWhile isspace (rev ?m)"
  have split1: "t = ?a @ ?m" by simp
  have "rev ?m = ?b @ ?r" by simp
  then have "?m = rev ?r @ rev ?b"
    by (metis rev_append rev_rev_ident)
  with split1 have decomp: "t = ?a @ strip t @ rev ?b"
    by (simp add: strip_def)
  have sp_a: "list_all isspace ?a"
    by (simp add: list_all_iff) (meson set_takeWhileD)
  have sp_b: "list_all isspace (rev ?b)"
    by (simp add: list_all_iff) (meson set_takeWhileD)
  have ends: "\<not> isspace (hd (strip t)) \<and> \<not> isspace (last (strip t))" if ne: "strip t \<noteq> []"
  proof -
    from ne have r_ne: "?r \<noteq> []" by (simp add: strip_def)
    then have last_ok: "\<not> isspace (hd ?r)" by (rule hd_dropWhile)
    have "last (strip t) = hd ?r"
      using r_ne by (simp add: strip_def last_rev)
    with last_ok have l: "\<not> isspace (last (strip t))" by simp
    from r_ne have m_ne: "?m \<noteq> []"
      by (metis dropWhile.simps(1) rev_is_Nil_conv)
    then have hd_m: "\<not> isspace (hd ?m)" by (rule hd_dropWhile)
    have "hd (rev ?r @ rev ?b) = hd (rev ?r)"
      using r_ne by simp
    with \<open>?m = rev ?r @ rev ?b\<close> have "hd ?m = hd (strip t)"
      by (simp add: strip_def)
    with hd_m l show ?thesis by simp
  qed
  show ?thesis
    unfolding trimmed_of_def using decomp sp_a sp_b ends by blast
qed

text \<open>The definitions a concrete run unfolds.\<close>

lemmas eval_defs = speaker_id_def py_max_def dict_get_def overlap_duration_def strip_def isspace_def
  pipeline_speaker_def align_speaker_def total_overlap_def total_overlap_tuples_def exact_def
  ascii_def

section \<open>Claims on the aligner\<close>

text \<open>
  Claim C1, for \<open>map_speakers_to_segments\<close> of pipeline2.py, whatever the rounding of the
  floats: a segment that some track overlaps for a positive duration gets the label of
  one of the overlapping tracks, and the total overlap of that label, added up as the
  code adds it, is maximal among the labels of the overlapping tracks. Where sums of
  numbers that are not negative are not negative, as for doubles, it is maximal among
  all labels, those without an overlapping track having the total 0.
\<close>

theorem max_total_overlap_speaker:
  assumes "i < length segs"
    and "\<exists>t \<in> set d. 0 < overlap_duration ar (seg_start (segs ! i)) (seg_end (segs ! i)) t"
  shows "\<exists>mapped sp. map_speakers_to_segments ar segs d = Inr mapped \<and>
           map_of (mapped ! i) ''speaker'' = Some (Str sp) \<and>
           sp \<in> set (overlapping_labels ar (seg_start (segs ! i)) (seg_end (segs ! i)) d) \<and>
           (\<forall>k \<in> set (overlapping_labels ar (seg_start (segs ! i)) (seg_end (segs ! i)) d).
              total_overlap ar (seg_start (segs ! i)) (seg_end (segs ! i)) d k
                \<le> total_overlap ar (seg_start (segs ! i)) (seg_end (segs ! i)) d sp) \<and>
           (nonneg_sums ar \<longrightarrow>
              (\<forall>k. total_overlap ar (seg_start (segs ! i)) (seg_end (segs ! i)) d k
                     \<le> total_overlap ar (seg_start (segs ! i)) (seg_end (segs ! i)) d sp))"
proof -
  let ?s = "seg_start (segs ! i)" and ?e = "seg_end (segs ! i)"
  obtain mapped where m: "map_speakers_to_segments ar segs d = Inr mapped"
    and at: "\<forall>i < length segs.
        \<exists>sp. speaker_id ar (seg_start (segs ! i)) (seg_end (segs ! i)) d = Inr sp \<and>
          mapped ! i =
            [(''start'', Num (seg_start (segs ! i))), (''end'', Num (seg_end (segs ! i))),
             (''text'', Text (strip (seg_text (segs ! i)))), (''speaker'', Str sp)]"
    using map_speakers_to_segments_shape [of ar segs d] by blast
  from at assms(1) obtain sp where sp: "speaker_id ar ?s ?e d = Inr sp"
    and row: "mapped ! i =
            [(''start'', Num ?s), (''end'', Num ?e),
             (''text'', Text (strip (seg_text (segs ! i)))), (''speaker'', Str sp)]"
    by blast
  from assms(2) obtain sp' where sp': "speaker_id ar ?s ?e d = Inr sp'"
    and mem': "sp' \<in> set (overlapping_labels ar ?s ?e d)"
    and ge': "\<forall>k \<in> set (overlapping_labels ar ?s ?e d).
                total_overlap ar ?s ?e d k \<le> total_overlap ar ?s ?e d sp'"
    using speaker_id_overlap [of d ar ?s ?e] by blast
  from sp sp' have eq: "sp' = sp" by simp
  from mem' eq have mem: "sp \<in> set (overlapping_labels ar ?s ?e d)" by simp
  from ge' eq have ge: "\<forall>k \<in> set (overlapping_labels ar ?s ?e d).
                total_overlap ar ?s ?e d k \<le> total_overlap ar ?s ?e d sp" by simp
  have all: "total_overlap ar ?s ?e d k \<le> total_overlap ar ?s ?e d sp" if "nonneg_sums ar" for k
  proof (cases "k \<in> set (overlapping_labels ar ?s ?e d)")
    case True
    with ge show ?thesis by blast
  next
    case False
    with that show ?thesis
      by (simp add: total_overlap_unlisted total_overlap_nonneg)
  qed
  have "map_of (mapped ! i) ''speaker'' = Some (Str sp)"
    by (simp add: row)
  with m mem ge all show ?thesis by blast
qed

text \<open>
  The example of the specification: speaker A with a total of 1.5 against 1 for B. And
  an arithmetic that rounds: with sums rounded down to whole numbers, the totals of A and
  B over the segment from 0 to 10 are both 3, and B, whose track comes first, is named.
\<close>

theorem max_total_overlap_speaker_witness:
  "map_speakers_to_segments exact [\<lparr>seg_start = 0, seg_end = 2, seg_text = ascii '' hello''\<rparr>] spec_turns =
     Inr [[(''start'', Num 0), (''end'', Num 2), (''text'', Text (ascii ''hello'')), (''speaker'', Str ''A'')]] \<and>
   total_overlap exact 0 2 spec_turns ''A'' = 3/2 \<and> total_overlap exact 0 2 spec_turns ''B'' = 1 \<and>
   nonneg_sums exact \<and>
   (\<exists>mapped sp. map_speakers_to_segments exact [\<lparr>seg_start = 0, seg_end = 2, seg_text = ascii '' hello''\<rparr>] spec_turns = Inr mapped \<and>
           map_of (mapped ! 0) ''speaker'' = Some (Str sp) \<and>
           sp \<in> set (overlapping_labels exact 0 2 spec_turns) \<and>
           (\<forall>k. total_overlap exact 0 2 spec_turns k \<le> total_overlap exact 0 2 spec_turns sp)) \<and>
   map_speakers_to_segments floored [\<lparr>seg_start = 0, seg_end = 10, seg_text = ascii ''hello''\<rparr>] rounded_turns =
     Inr [[(''start'', Num 0), (''end'', Num 10), (''text'', Text (ascii ''hello'')), (''speaker'', Str ''B'')]] \<and>
   total_overlap floored 0 10 rounded_turns ''A'' = 3 \<and>
   total_overlap floored 0 10 rounded_turns ''B'' = 3"
proof -
  let ?segs = "[\<lparr>seg_start = 0, seg_end = 2, seg_text = ascii '' hello''\<rparr>]"
  have "\<exists>t \<in> set spec_turns. 0 < overlap_duration exact (seg_start (?segs ! 0)) (seg_end (?segs ! 0)) t"
    by (simp add: spec_turns_def overlap_duration_def exact_def)
  from max_total_overlap_speaker [OF _ this]
  obtain mapped sp where m: "map_speakers_to_segments exact ?segs spec_turns = Inr mapped"
    and sp: "map_of (mapped ! 0) ''speaker'' = Some (Str sp)"
    and mem: "sp \<in> set (overlapping_labels exact (seg_start (?segs ! 0)) (seg_end (?segs ! 0)) spec_turns)"
    and all: "nonneg_sums exact \<longrightarrow>
       (\<forall>k. total_overlap exact (seg_start (?segs ! 0)) (seg_end (?segs ! 0)) spec_turns k
              \<le> total_overlap exact (seg_start (?segs ! 0)) (seg_end (?segs ! 0)) spec_turns sp)"
    by auto
  have nn: "nonneg_sums exact"
    by (simp add: nonneg_sums_def exact_def)
  with all have all': "\<forall>k. total_overlap exact 0 2 spec_turns k \<le> total_overlap exact 0 2 spec_turns sp"
    by simp
  from mem have mem': "sp \<in> set (overlapping_labels exact 0 2 spec_turns)" by simp
  have run: "map_speakers_to_segments exact ?segs spec_turns =
     Inr [[(''start'', Num 0), (''end'', Num 2), (''text'', Text (ascii ''hello'')), (''speaker'', Str ''A'')]]"
    by (simp add: spec_turns_def eval_defs)
  have totals: "total_overlap exact 0 2 spec_turns ''A'' = 3/2" "total_overlap exact 0 2 spec_turns ''B'' = 1"
    by (simp_all add: spec_turns_def eval_defs)
  have rounded: "map_speakers_to_segments floored [\<lparr>seg_start = 0, seg_end = 10, seg_text = ascii ''hello''\<rparr>] rounded_turns =
     Inr [[(''start'', Num 0), (''end'', Num 10), (''text'', Text (ascii ''hello'')), (''speaker'', Str ''B'')]]"
    "total_overlap floored 0 10 rounded_turns ''A'' = 3"
    "total_overlap floored 0 10 rounded_turns ''B'' = 3"
    by (simp_all add: rounded_turns_def floored_def eval_defs)
  from m sp mem' all' run totals nn rounded show ?thesis by blast
qed

text \<open>The aligner of pipeline.py names the label of most overlapping tracks, and \<open>align_segments\<close> the label of the single longest overlap: both name a speaker whose total overlap is the smaller one.\<close>

theorem most_frequent_or_longest_turn_counterexample:
  "pipeline_map_speakers_to_segments remdups
     [\<lparr>seg_start = 0, seg_end = 10, seg_text = ascii ''hello''\<rparr>] frequent_turns =
     Inr [[(''start'', Num 0), (''end'', Num 10), (''text'', Text (ascii ''hello'')), (''speaker'', Str ''A'')]] \<and>
   total_overlap exact 0 10 frequent_turns ''A'' = 2 \<and>
   total_overlap exact 0 10 frequent_turns ''B'' = 7 \<and>
   align_segments exact [\<lparr>seg_start = 0, seg_end = 10, seg_text = ascii ''hello''\<rparr>]
     [(0, 3, ''A''), (3, 6, ''A''), (6, 10, ''B'')] =
     Inr [[(''start'', Num 0), (''end'', Num 10), (''text'', Text (ascii ''hello'')),
           (''speaker'', Str ''Speaker_B'')]] \<and>
   total_overlap_tuples exact 0 10 [(0, 3, ''A''), (3, 6, ''A''), (6, 10, ''B'')] ''A'' = 6 \<and>
   total_overlap_tuples exact 0 10 [(0, 3, ''A''), (3, 6, ''A''), (6, 10, ''B'')] ''B'' = 4"
  by (simp add: frequent_turns_def eval_defs)

text \<open>The speaker of a segment is the first label of maximal total overlap.\<close>

lemma speaker_id_first_maximal: "speaker_id ar s e d = Inr (first_maximal_speaker ar s e d)"
proof (cases "\<exists>t \<in> set d. 0 < overlap_duration ar s e t")
  case True
  then obtain sp where sp: "speaker_id ar s e d = Inr sp"
    and mem: "sp \<in> set (overlapping_labels ar s e d)"
    and ge: "\<forall>k \<in> set (overlapping_labels ar s e d).
               total_overlap ar s e d k \<le> total_overlap ar s e d sp"
    and first: "List.find (\<lambda>k. total_overlap ar s e d sp \<le> total_overlap ar s e d k)
                  (overlapping_labels ar s e d) = Some sp"
    using speaker_id_overlap [of d ar s e] by blast
  have "(\<forall>k' \<in> set (overlapping_labels ar s e d).
            total_overlap ar s e d k' \<le> total_overlap ar s e d k) \<longleftrightarrow>
        total_overlap ar s e d sp \<le> total_overlap ar s e d k" for k
    using ge mem order_trans by blast
  then have "(\<lambda>k. \<forall>k' \<in> set (overlapping_labels ar s e d).
                    total_overlap ar s e d k' \<le> total_overlap ar s e d k) =
        (\<lambda>k. total_overlap ar s e d sp \<le> total_overlap ar s e d k)"
    by (intro ext)
  with first sp show ?thesis
    by (simp add: first_maximal_speaker_def)
next
  case False
  then have "overlapping_labels ar s e d = []"
    by (simp add: overlapping_labels_Nil)
  with False show ?thesis
    by (simp add: first_maximal_speaker_def speaker_id_no_overlap)
qed

text \<open>
  Claim C5, for \<open>map_speakers_to_segments\<close> of pipeline2.py, whatever the rounding of the
  floats: the speakers are a function of the segments and of the tracks in iteration
  order alone. Every segment gets the first label, in the order of the overlapping
  tracks, whose total overlap as the code adds it up is maximal among the labels of the
  overlapping tracks, and \<open>"Unknown"\<close> when no track overlaps; so equal totals always
  resolve to the label met first.
\<close>

theorem tie_break_first_label:
  "\<exists>mapped. map_speakers_to_segments ar segs d = Inr mapped \<and> length mapped = length segs \<and>
     (\<forall>i < length segs.
        map_of (mapped ! i) ''speaker'' =
          Some (Str (first_maximal_speaker ar (seg_start (segs ! i)) (seg_end (segs ! i)) d)))"
proof -
  obtain mapped where m: "map_speakers_to_segments ar segs d = Inr mapped"
    and len: "length mapped = length segs"
    and at: "\<And>i. i < length segs \<Longrightarrow>
        \<exists>sp. speaker_id ar (seg_start (segs ! i)) (seg_end (segs ! i)) d = Inr sp \<and>
          mapped ! i =
            [(''start'', Num (seg_start (segs ! i))), (''end'', Num (seg_end (segs ! i))),
             (''text'', Text (strip (seg_text (segs ! i)))), (''speaker'', Str sp)]"
    using map_speakers_to_segments_shape [of ar segs d] by blast
  have "map_of (mapped ! i) ''speaker'' =
          Some (Str (first_maximal_speaker ar (seg_start (segs ! i)) (seg_end (segs ! i)) d))"
    if "i < length segs" for i
    using at [OF that] by (auto simp: speaker_id_first_maximal)
  with m len show ?thesis by blast
qed

text \<open>
  Two speakers with one second each: the one whose track comes first is named. And the
  two speakers whose totals are equal only after rounding: again the first is named.
\<close>

theorem tie_break_first_label_witness:
  "map_speakers_to_segments exact [\<lparr>seg_start = 0, seg_end = 2, seg_text = ascii ''hello''\<rparr>] tie_turns =
     Inr [[(''start'', Num 0), (''end'', Num 2), (''text'', Text (ascii ''hello'')), (''speaker'', Str ''B'')]] \<and>
   total_overlap exact 0 2 tie_turns ''A'' = total_overlap exact 0 2 tie_turns ''B'' \<and>
   first_maximal_speaker exact 0 2 tie_turns = ''B'' \<and>
   first_maximal_speaker floored 0 10 rounded_turns = ''B''"
proof -
  let ?segs = "[\<lparr>seg_start = 0, seg_end = 2, seg_text = ascii ''hello''\<rparr>]"
  have run: "map_speakers_to_segments exact ?segs tie_turns =
     Inr [[(''start'', Num 0), (''end'', Num 2), (''text'', Text (ascii ''hello'')), (''speaker'', Str ''B'')]]"
    by (simp add: tie_turns_def eval_defs)
  have tie: "total_overlap exact 0 2 tie_turns ''A'' = total_overlap exact 0 2 tie_turns ''B''"
    by (simp add: tie_turns_def eval_defs)
  from tie_break_first_label [of exact ?segs tie_turns]
  obtain mapped where m: "map_speakers_to_segments exact ?segs tie_turns = Inr mapped"
    and at: "\<forall>i < length ?segs. map_of (mapped ! i) ''speaker'' =
          Some (Str (first_maximal_speaker exact (seg_start (?segs ! i)) (seg_end (?segs ! i)) tie_turns))"
    by blast
  from run m have "mapped =
     [[(''start'', Num 0), (''end'', Num 2), (''text'', Text (ascii ''hello'')), (''speaker'', Str ''B'')]]"
    by (metis Inr_inject)
  with at have "first_maximal_speaker exact 0 2 tie_turns = ''B''"
    by simp
  moreover have "first_maximal_speaker floored 0 10 rounded_turns = ''B''"
    by (simp add: first_maximal_speaker_def overlapping_labels_def rounded_turns_def floored_def
        eval_defs)
  ultimately show ?thesis using run tie by blast
qed

text \<open>In pipeline.py the same tie goes to whichever label the set yields first.\<close>

theorem set_iteration_tie_counterexample:
  "set_order remdups \<and> set_order (\<lambda>xs. rev (remdups xs)) \<and>
   pipeline_map_speakers_to_segments remdups
     [\<lparr>seg_start = 0, seg_end = 2, seg_text = ascii ''hello''\<rparr>] tie_turns =
     Inr [[(''start'', Num 0), (''end'', Num 2), (''text'', Text (ascii ''hello'')), (''speaker'', Str ''B'')]] \<and>
   pipeline_map_speakers_to_segments (\<lambda>xs. rev (remdups xs))
     [\<lparr>seg_start = 0, seg_end = 2, seg_text = ascii ''hello''\<rparr>] tie_turns =
     Inr [[(''start'', Num 0), (''end'', Num 2), (''text'', Text (ascii ''hello'')), (''speaker'', Str ''A'')]]"
  by (simp add: set_order_def tie_turns_def eval_defs)

text \<open>
  Claim C6, for \<open>map_speakers_to_segments\<close> of pipeline2.py: it never raises and returns
  one dictionary per Whisper segment, in the same order, holding the start and end of
  the segment, its text without leading and trailing whitespace, and the speaker
  chosen for it.
\<close>

theorem one_output_per_segment:
  "\<exists>mapped. map_speakers_to_segments ar segs d = Inr mapped \<and> length mapped = length segs \<and>
     (\<forall>i < length segs. \<exists>txt sp.
        mapped ! i =
          [(''start'', Num (seg_start (segs ! i))), (''end'', Num (seg_end (segs ! i))),
           (''text'', Text txt), (''speaker'', Str sp)] \<and>
        trimmed_of txt (seg_text (segs ! i)) \<and>
        speaker_id ar (seg_start (segs ! i)) (seg_end (segs ! i)) d = Inr sp)"
proof -
  obtain mapped where m: "map_speakers_to_segments ar segs d = Inr mapped"
    and len: "length mapped = length segs"
    and at: "\<And>i. i < length segs \<Longrightarrow>
        \<exists>sp. speaker_id ar (seg_start (segs ! i)) (seg_end (segs ! i)) d = Inr sp \<and>
          mapped ! i =
            [(''start'', Num (seg_start (segs ! i))), (''end'', Num (seg_end (segs ! i))),
             (''text'', Text (strip (seg_text (segs ! i)))), (''speaker'', Str sp)]"
    using map_speakers_to_segments_shape [of ar segs d] by blast
  have "\<exists>txt sp.
        mapped ! i =
          [(''start'', Num (seg_start (segs ! i))), (''end'', Num (seg_end (segs ! i))),
           (''text'', Text txt), (''speaker'', Str sp)] \<and>
        trimmed_of txt (seg_text (segs ! i)) \<and>
        speaker_id ar (seg_start (segs ! i)) (seg_end (segs ! i)) d = Inr sp"
    if "i < length segs" for i
    using at [OF that] strip_trimmed [of "seg_text (segs ! i)"] by blast
  with m len show ?thesis by blast
qed

text \<open>
  Two segments, the second without any overlapping track. The text of the first begins
  with a no-break space (U+00A0) and a space and ends with a next-line character
  (U+0085) and an ideographic space (U+3000).
\<close>

theorem one_output_per_segment_witness:
  "map_speakers_to_segments exact
     [\<lparr>seg_start = 0, seg_end = 2, seg_text = [160, 32] @ ascii ''hello'' @ [133, 12288]\<rparr>,
      \<lparr>seg_start = 10, seg_end = 11, seg_text = ascii ''bye''\<rparr>] spec_turns =
     Inr [[(''start'', Num 0), (''end'', Num 2), (''text'', Text (ascii ''hello'')), (''speaker'', Str ''A'')],
          [(''start'', Num 10), (''end'', Num 11), (''text'', Text (ascii ''bye'')), (''speaker'', Str ''Unknown'')]] \<and>
   trimmed_of (ascii ''hello'') ([160, 32] @ ascii ''hello'' @ [133, 12288])"
proof -
  let ?segs = "[\<lparr>seg_start = 0, seg_end = 2, seg_text = [160, 32] @ ascii ''hello'' @ [133, 12288]\<rparr>,
      \<lparr>seg_start = 10, seg_end = 11, seg_text = ascii ''bye''\<rparr>]"
  have run: "map_speakers_to_segments exact ?segs spec_turns =
     Inr [[(''start'', Num 0), (''end'', Num 2), (''text'', Text (ascii ''hello'')), (''speaker'', Str ''A'')],
          [(''start'', Num 10), (''end'', Num 11), (''text'', Text (ascii ''bye'')), (''speaker'', Str ''Unknown'')]]"
    by (simp add: spec_turns_def eval_defs)
  from one_output_per_segment [of exact ?segs spec_turns]
  obtain mapped where m: "map_speakers_to_segments exact ?segs spec_turns = Inr mapped"
    and at: "\<forall>i < length ?segs. \<exists>txt sp.
        mapped ! i =
          [(''start'', Num (seg_start (?segs ! i))), (''end'', Num (seg_end (?segs ! i))),
           (''text'', Text txt), (''speaker'', Str sp)] \<and>
        trimmed_of txt (seg_text (?segs ! i)) \<and>
        speaker_id exact (seg_start (?segs ! i)) (seg_end (?segs ! i)) spec_turns = Inr sp"
    by blast
  from run m have "mapped = [[(''start'', Num 0), (''end'', Num 2), (''text'', Text (ascii ''hello'')), (''speaker'', Str ''A'')],
          [(''start'', Num 10), (''end'', Num 11), (''text'', Text (ascii ''bye'')), (''speaker'', Str ''Unknown'')]]"
    by (metis Inr_inject)
  with at have "trimmed_of (ascii ''hello'') ([160, 32] @ ascii ''hello'' @ [133, 12288])"
    by fastforce
  with run show ?thesis by blast
qed

text \<open>The aligner of pipeline.py copies the text with its whitespace.\<close>

theorem untrimmed_text_counterexample:
  "pipeline_map_speakers_to_segments remdups
     [\<lparr>seg_start = 0, seg_end = 2, seg_text = ascii '' hello ''\<rparr>] spec_turns =
     Inr [[(''start'', Num 0), (''end'', Num 2), (''text'', Text (ascii '' hello '')), (''speaker'', Str ''A'')]] \<and>
   \<not> trimmed_of (ascii '' hello '') (ascii '' hello '')"
  by (simp add: spec_turns_def trimmed_of_def eval_defs)

text \<open>
  Claim C7, for \<open>map_speakers_to_segments\<close> of pipeline2.py: a segment whose overlap with
  every track is zero gets the speaker \<open>"Unknown"\<close>.
\<close>

theorem no_overlap_speaker_Unknown:
  assumes "i < length segs"
    and "\<forall>t \<in> set d. overlap_duration ar (seg_start (segs ! i)) (seg_end (segs ! i)) t = 0"
  shows "\<exists>mapped. map_speakers_to_segments ar segs d = Inr mapped \<and>
           map_of (mapped ! i) ''speaker'' = Some (Str ''Unknown'')"
proof -
  obtain mapped where m: "map_speakers_to_segments ar segs d = Inr mapped"
    and at: "\<And>i. i < length segs \<Longrightarrow>
        \<exists>sp. speaker_id ar (seg_start (segs ! i)) (seg_end (segs ! i)) d = Inr sp \<and>
          mapped ! i =
            [(''start'', Num (seg_start (segs ! i))), (''end'', Num (seg_end (segs ! i))),
             (''text'', Text (strip (seg_text (segs ! i)))), (''speaker'', Str sp)]"
    using map_speakers_to_segments_shape [of ar segs d] by blast
  from assms(2) have "speaker_id ar (seg_start (segs ! i)) (seg_end (segs ! i)) d = Inr ''Unknown''"
    by (intro speaker_id_no_overlap) simp
  with at [OF assms(1)] have "map_of (mapped ! i) ''speaker'' = Some (Str ''Unknown'')"
    by auto
  with m show ?thesis by blast
qed

text \<open>The example of the specification: a segment from 10 to 11 and a turn from 0 to 5.\<close>

theorem no_overlap_speaker_Unknown_witness:
  "overlap_duration exact 10 11 \<lparr>turn_start = 0, turn_end = 5, speaker = ''A''\<rparr> = 0 \<and>
   (\<exists>mapped. map_speakers_to_segments exact [\<lparr>seg_start = 10, seg_end = 11, seg_text = ascii ''bye''\<rparr>]
                [\<lparr>turn_start = 0, turn_end = 5, speaker = ''A''\<rparr>] = Inr mapped \<and>
           map_of (mapped ! 0) ''speaker'' = Some (Str ''Unknown''))"
proof -
  have h: "overlap_duration exact 10 11 \<lparr>turn_start = 0, turn_end = 5, speaker = ''A''\<rparr> = 0"
    by (simp add: overlap_duration_def exact_def)
  with no_overlap_speaker_Unknown [of 0 "[\<lparr>seg_start = 10, seg_end = 11, seg_text = ascii ''bye''\<rparr>]"
      "[\<lparr>turn_start = 0, turn_end = 5, speaker = ''A''\<rparr>]" exact]
  show ?thesis by simp
qed

text \<open>
  The sentinel is spelt with a capital letter. The aligner of pipeline.py, whose test
  is \<open>start < turn.end and end > turn.start\<close>, gives a segment of length zero inside a
  turn the speaker of that turn, although the overlap is zero.
\<close>

theorem sentinel_spelling_counterexample:
  "map_speakers_to_segments exact [\<lparr>seg_start = 10, seg_end = 11, seg_text = ascii ''bye''\<rparr>]
     [\<lparr>turn_start = 0, turn_end = 5, speaker = ''A''\<rparr>] =
     Inr [[(''start'', Num 10), (''end'', Num 11), (''text'', Text (ascii ''bye'')),
           (''speaker'', Str ''Unknown'')]] \<and>
   ''Unknown'' \<noteq> ''unknown'' \<and>
   overlap_duration exact 1 1 \<lparr>turn_start = 0, turn_end = 2, speaker = ''A''\<rparr> = 0 \<and>
   pipeline_map_speakers_to_segments remdups [\<lparr>seg_start = 1, seg_end = 1, seg_text = ascii ''bye''\<rparr>]
     [\<lparr>turn_start = 0, turn_end = 2, speaker = ''A''\<rparr>] =
     Inr [[(''start'', Num 1), (''end'', Num 1), (''text'', Text (ascii ''bye'')), (''speaker'', Str ''A'')]]"
  by (simp add: eval_defs)

section \<open>Rules for run\_full\_pipeline\<close>

text \<open>
  A property \<open>K\<close> of the result of the run follows from what each step does to the
  state: \<open>J1\<close> to \<open>J9\<close> hold after the steps that went through, and \<open>K\<close> holds
  wherever the function returns.
\<close>

lemma try_stepI:
  assumes "\<And>e st. r = (Inl e, st) \<Longrightarrow> K (Empty_dict, st)"
    and "\<And>x st. r = (Inr x, st) \<Longrightarrow> K (continue x st)"
  shows "K (try_step r continue)"
proof (cases r)
  case (Pair res st)
  then show ?thesis using assms by (cases res) (auto simp: try_step_def)
qed

lemma enrich_rule:
  assumes init: "J4 st4"
    and s5: "\<And>st r st'. J4 st \<Longrightarrow>
        load_or_compute env fb Audio_features audio_features_json audio_features_json_update
          (extract_audio_features env wav ds) st = (r, st') \<Longrightarrow>
        (case r of Inl e \<Rightarrow> K (Empty_dict, st') | Inr x \<Rightarrow> J5 st')"
    and s6: "\<And>st r st'. J5 st \<Longrightarrow>
        load_or_compute env fb Text_embeddings text_embeddings_json text_embeddings_json_update
          (get_text_embeddings env texts) st = (r, st') \<Longrightarrow>
        (case r of Inl e \<Rightarrow> K (Empty_dict, st') | Inr x \<Rightarrow> J6 st')"
    and s7a: "\<And>st r st'. J6 st \<Longrightarrow>
        load_or_compute env fb Text_emotions text_emotions_json text_emotions_json_update
          (run_text_emotion_analysis env texts) st = (r, st') \<Longrightarrow>
        (case r of Inl e \<Rightarrow> K (Empty_dict, st') | Inr x \<Rightarrow> J7 st')"
    and s7b: "\<And>st r st'. J7 st \<Longrightarrow>
        load_or_compute env fb Speech_emotions speech_emotions_json speech_emotions_json_update
          (run_speech_emotion_recognition env wav ds) st = (r, st') \<Longrightarrow>
        (case r of Inl e \<Rightarrow> K (Empty_dict, st') | Inr x \<Rightarrow> J8 st')"
    and s8: "\<And>st r st'. J8 st \<Longrightarrow>
        load_or_compute env fb Keywords keywords_json keywords_json_update
          (extract_keywords env texts) st = (r, st') \<Longrightarrow>
        (case r of Inl e \<Rightarrow> K (Empty_dict, st') | Inr x \<Rightarrow> J9 st')"
    and fin: "\<And>af te tem sem kw st. J9 st \<Longrightarrow>
        K (finish env ib fb wr ds af te tem sem kw st)"
  shows "K (enrich env ib fb wav wr ds texts st4)"
  unfolding enrich_def
proof (rule try_stepI)
  fix e st assume "load_or_compute env fb Audio_features audio_features_json
      audio_features_json_update (extract_audio_features env wav ds) st4 = (Inl e, st)"
  from s5 [OF init this] show "K (Empty_dict, st)" by simp
next
  fix af st5 assume "load_or_compute env fb Audio_features audio_features_json
      audio_features_json_update (extract_audio_features env wav ds) st4 = (Inr af, st5)"
  from s5 [OF init this] have j5: "J5 st5" by simp
  show "K (try_step (load_or_compute env fb Text_embeddings text_embeddings_json
                 text_embeddings_json_update (get_text_embeddings env texts) st5)
       (\<lambda>text_embeddings st6.
     try_step (load_or_compute env fb Text_emotions text_emotions_json
                 text_emotions_json_update (run_text_emotion_analysis env texts) st6)
       (\<lambda>text_emotions st7a.
     try_step (load_or_compute env fb Speech_emotions speech_emotions_json
                 speech_emotions_json_update
                 (run_speech_emotion_recognition env wav ds) st7a)
       (\<lambda>speech_emotions st7b.
     try_step (load_or_compute env fb Keywords keywords_json
                 keywords_json_update (extract_keywords env texts) st7b)
       (\<lambda>keywords st8.
          finish env ib fb wr ds
            af text_embeddings text_emotions speech_emotions keywords st8)))))"
  proof (rule try_stepI)
    fix e st assume "load_or_compute env fb Text_embeddings text_embeddings_json
        text_embeddings_json_update (get_text_embeddings env texts) st5 = (Inl e, st)"
    from s6 [OF j5 this] show "K (Empty_dict, st)" by simp
  next
    fix te st6 assume "load_or_compute env fb Text_embeddings text_embeddings_json
        text_embeddings_json_update (get_text_embeddings env texts) st5 = (Inr te, st6)"
    from s6 [OF j5 this] have j6: "J6 st6" by simp
    show "K (try_step (load_or_compute env fb Text_emotions text_emotions_json
                 text_emotions_json_update (run_text_emotion_analysis env texts) st6)
       (\<lambda>text_emotions st7a.
     try_step (load_or_compute env fb Speech_emotions speech_emotions_json
                 speech_emotions_json_update
                 (run_speech_emotion_recognition env wav ds) st7a)
       (\<lambda>speech_emotions st7b.
     try_step (load_or_compute env fb Keywords keywords_json
                 keywords_json_update (extract_keywords env texts) st7b)
       (\<lambda>keywords st8.
          finish env ib fb wr ds af te text_emotions speech_emotions keywords st8))))"
    proof (rule try_stepI)
      fix e st assume "load_or_compute env fb Text_emotions text_emotions_json
          text_emotions_json_update (run_text_emotion_analysis env texts) st6 = (Inl e, st)"
      from s7a [OF j6 this] show "K (Empty_dict, st)" by simp
    next
      fix tem st7 assume "load_or_compute env fb Text_emotions text_emotions_json
          text_emotions_json_update (run_text_emotion_analysis env texts) st6 = (Inr tem, st7)"
      from s7a [OF j6 this] have j7: "J7 st7" by simp
      show "K (try_step (load_or_compute env fb Speech_emotions speech_emotions_json
                 speech_emotions_json_update
                 (run_speech_emotion_recognition env wav ds) st7)
       (\<lambda>speech_emotions st7b.
     try_step (load_or_compute env fb Keywords keywords_json
                 keywords_json_update (extract_keywords env texts) st7b)
       (\<lambda>keywords st8.
          finish env ib fb wr ds af te tem speech_emotions keywords st8)))"
      proof (rule try_stepI)
        fix e st assume "load_or_compute env fb Speech_emotions speech_emotions_json
            speech_emotions_json_update (run_speech_emotion_recognition env wav ds) st7 =
            (Inl e, st)"
        from s7b [OF j7 this] show "K (Empty_dict, st)" by simp
      next
        fix sem st8 assume "load_or_compute env fb Speech_emotions speech_emotions_json
            speech_emotions_json_update (run_speech_emotion_recognition env wav ds) st7 =
            (Inr sem, st8)"
        from s7b [OF j7 this] have j8: "J8 st8" by simp
        show "K (try_step (load_or_compute env fb Keywords keywords_json
                 keywords_json_update (extract_keywords env texts) st8)
           (\<lambda>keywords st8.
              finish env ib fb wr ds af te tem sem keywords st8))"
        proof (rule try_stepI)
          fix e st assume "load_or_compute env fb Keywords keywords_json
              keywords_json_update (extract_keywords env texts) st8 = (Inl e, st)"
          from s8 [OF j8 this] show "K (Empty_dict, st)" by simp
        next
          fix kw st9 assume "load_or_compute env fb Keywords keywords_json
              keywords_json_update (extract_keywords env texts) st8 = (Inr kw, st9)"
          from s8 [OF j8 this] have "J9 st9" by simp
          then show "K (finish env ib fb wr ds af te tem sem kw st9)" by (rule fin)
        qed
      qed
    qed
  qed
qed

text \<open>
  Steps 2, 3 and 4 stop as well when what they loaded is a number.
\<close>

lemma try_loadedI:
  assumes "\<And>e st. r = (Inl e, st) \<Longrightarrow> K (Empty_dict, st)"
    and "\<And>st. r = (Inr Scalar, st) \<Longrightarrow> K (Empty_dict, st)"
    and "\<And>x st. r = (Inr (Value x), st) \<Longrightarrow> K (continue x st)"
  shows "K (try_step (use_loaded r) continue)"
proof (cases r)
  case (Pair res st)
  show ?thesis
  proof (cases res)
    case (Inl e)
    with Pair assms(1) show ?thesis by (simp add: try_step_def use_loaded_def)
  next
    case (Inr l)
    with Pair assms(2,3) show ?thesis by (cases l) (simp_all add: try_step_def use_loaded_def)
  qed
qed

lemma run_full_pipeline_rule:
  assumes pre: "\<And>p st'. preprocess_audio env fb m st0 = (p, st') \<Longrightarrow>
        (case p of Inl e \<Rightarrow> K (Uncaught e, st') | Inr None \<Rightarrow> K (Empty_dict, st')
         | Inr (Some path) \<Rightarrow> J1 st')"
    and nowav: "\<And>st. J1 st \<Longrightarrow> trimmed_wav (files st) = None \<Longrightarrow> K (Empty_dict, st)"
    and s2: "\<And>wav st r st'. J1 st \<Longrightarrow>
        load_or_compute env fb Whisper_raw whisper_raw_json whisper_raw_json_update
          (transcribe_audio env wav) st = (r, st') \<Longrightarrow>
        (case r of Inl e \<Rightarrow> K (Empty_dict, st') | Inr x \<Rightarrow> J2 st')"
    and stop2: "\<And>st. J2 st \<Longrightarrow> K (Empty_dict, st)"
    and s3: "\<And>wav st r st'. J2 st \<Longrightarrow>
        load_or_compute env fb Diarization_raw diarization_raw_json diarization_raw_json_update
          (perform_speaker_diarization env wav) st = (r, st') \<Longrightarrow>
        (case r of Inl e \<Rightarrow> K (Empty_dict, st') | Inr x \<Rightarrow> J3 st')"
    and stop3: "\<And>st. J3 st \<Longrightarrow> K (Empty_dict, st)"
    and s4: "\<And>segs tracks st r st'. J3 st \<Longrightarrow>
        load_or_compute env fb Mapped_segments mapped_segments_json mapped_segments_json_update
          (map_speakers_to_segments (float_ops env) segs tracks) st = (r, st') \<Longrightarrow>
        (case r of Inl e \<Rightarrow> K (Empty_dict, st') | Inr x \<Rightarrow> J4 st')"
    and stop4: "\<And>st. J4 st \<Longrightarrow> K (Empty_dict, st)"
    and s5: "\<And>wav ds st r st'. J4 st \<Longrightarrow>
        load_or_compute env fb Audio_features audio_features_json audio_features_json_update
          (extract_audio_features env wav ds) st = (r, st') \<Longrightarrow>
        (case r of Inl e \<Rightarrow> K (Empty_dict, st') | Inr x \<Rightarrow> J5 st')"
    and s6: "\<And>texts st r st'. J5 st \<Longrightarrow>
        load_or_compute env fb Text_embeddings text_embeddings_json text_embeddings_json_update
          (get_text_embeddings env texts) st = (r, st') \<Longrightarrow>
        (case r of Inl e \<Rightarrow> K (Empty_dict, st') | Inr x \<Rightarrow> J6 st')"
    and s7a: "\<And>texts st r st'. J6 st \<Longrightarrow>
        load_or_compute env fb Text_emotions text_emotions_json text_emotions_json_update
          (run_text_emotion_analysis env texts) st = (r, st') \<Longrightarrow>
        (case r of Inl e \<Rightarrow> K (Empty_dict, st') | Inr x \<Rightarrow> J7 st')"
    and s7b: "\<And>wav ds st r st'. J7 st \<Longrightarrow>
        load_or_compute env fb Speech_emotions speech_emotions_json speech_emotions_json_update
          (run_speech_emotion_recognition env wav ds) st = (r, st') \<Longrightarrow>
        (case r of Inl e \<Rightarrow> K (Empty_dict, st') | Inr x \<Rightarrow> J8 st')"
    and s8: "\<And>texts st r st'. J8 st \<Longrightarrow>
        load_or_compute env fb Keywords keywords_json keywords_json_update
          (extract_keywords env texts) st = (r, st') \<Longrightarrow>
        (case r of Inl e \<Rightarrow> K (Empty_dict, st') | Inr x \<Rightarrow> J9 st')"
    and fin: "\<And>wr ds af te tem sem kw st. J9 st \<Longrightarrow>
        K (finish env ib fb wr ds af te tem sem kw st)"
  shows "K (run_full_pipeline env ib fb m st0)"
proof -
  obtain p st1 where p: "preprocess_audio env fb m st0 = (p, st1)"
    by (cases "preprocess_audio env fb m st0")
  show ?thesis
  proof (cases p)
    case (Inl e)
    with pre [OF p] p show ?thesis by (simp add: run_full_pipeline_def)
  next
    case (Inr path_opt)
    show ?thesis
    proof (cases path_opt)
      case None
      with pre [OF p] p Inr show ?thesis by (simp add: run_full_pipeline_def)
    next
      case (Some path)
      with pre [OF p] Inr have j1: "J1 st1" by simp
      show ?thesis
      proof (cases "trimmed_wav (files st1)")
        case None
        with nowav [OF j1] p Inr Some show ?thesis by (simp add: run_full_pipeline_def)
      next
        case wav: (Some wav)
        have "K (try_step (use_loaded (load_or_compute env fb Whisper_raw whisper_raw_json
                   whisper_raw_json_update (transcribe_audio env wav) st1))
         (\<lambda>whisper_result st2.
       try_step (use_loaded (load_or_compute env fb Diarization_raw
                   diarization_raw_json diarization_raw_json_update
                   (perform_speaker_diarization env wav) st2))
         (\<lambda>diarization_list st3.
       try_step (use_loaded (load_or_compute env fb Mapped_segments
                   mapped_segments_json mapped_segments_json_update
                   (map_speakers_to_segments (float_ops env) (result_segments whisper_result)
                      (itertracks env diarization_list)) st3))
         (\<lambda>diarized_segments st4.
       try_step (collect (dict_item ''text'') diarized_segments, st4)
         (\<lambda>texts st4.
            if diarized_segments = [] then (Empty_dict, st4)
            else enrich env ib fb wav whisper_result diarized_segments
                   texts st4)))))"
        proof (rule try_loadedI)
          fix e st assume "load_or_compute env fb Whisper_raw whisper_raw_json
              whisper_raw_json_update (transcribe_audio env wav) st1 = (Inl e, st)"
          from s2 [OF j1 this] show "K (Empty_dict, st)" by simp
        next
          fix st assume "load_or_compute env fb Whisper_raw whisper_raw_json
              whisper_raw_json_update (transcribe_audio env wav) st1 = (Inr Scalar, st)"
          from s2 [OF j1 this] have "J2 st" by simp
          then show "K (Empty_dict, st)" by (rule stop2)
        next
          fix wr st2 assume "load_or_compute env fb Whisper_raw whisper_raw_json
              whisper_raw_json_update (transcribe_audio env wav) st1 = (Inr (Value wr), st2)"
          from s2 [OF j1 this] have j2: "J2 st2" by simp
          show "K (try_step (use_loaded (load_or_compute env fb Diarization_raw
                   diarization_raw_json diarization_raw_json_update
                   (perform_speaker_diarization env wav) st2))
             (\<lambda>diarization_list st3.
           try_step (use_loaded (load_or_compute env fb Mapped_segments
                       mapped_segments_json mapped_segments_json_update
                       (map_speakers_to_segments (float_ops env) (result_segments wr)
                          (itertracks env diarization_list)) st3))
             (\<lambda>diarized_segments st4.
           try_step (collect (dict_item ''text'') diarized_segments, st4)
             (\<lambda>texts st4.
                if diarized_segments = [] then (Empty_dict, st4)
                else enrich env ib fb wav wr diarized_segments texts st4))))"
          proof (rule try_loadedI)
            fix e st assume "load_or_compute env fb Diarization_raw diarization_raw_json
                diarization_raw_json_update (perform_speaker_diarization env wav) st2 = (Inl e, st)"
            from s3 [OF j2 this] show "K (Empty_dict, st)" by simp
          next
            fix st assume "load_or_compute env fb Diarization_raw diarization_raw_json
                diarization_raw_json_update (perform_speaker_diarization env wav) st2 =
                (Inr Scalar, st)"
            from s3 [OF j2 this] have "J3 st" by simp
            then show "K (Empty_dict, st)" by (rule stop3)
          next
            fix dl st3 assume "load_or_compute env fb Diarization_raw diarization_raw_json
                diarization_raw_json_update (perform_speaker_diarization env wav) st2 =
                (Inr (Value dl), st3)"
            from s3 [OF j2 this] have j3: "J3 st3" by simp
            show "K (try_step (use_loaded (load_or_compute env fb Mapped_segments
                       mapped_segments_json mapped_segments_json_update
                       (map_speakers_to_segments (float_ops env) (result_segments wr)
                          (itertracks env dl)) st3))
               (\<lambda>diarized_segments st4.
             try_step (collect (dict_item ''text'') diarized_segments, st4)
               (\<lambda>texts st4.
                  if diarized_segments = [] then (Empty_dict, st4)
                  else enrich env ib fb wav wr diarized_segments texts st4)))"
            proof (rule try_loadedI)
              fix e st assume "load_or_compute env fb Mapped_segments mapped_segments_json
                  mapped_segments_json_update
                  (map_speakers_to_segments (float_ops env) (result_segments wr)
                     (itertracks env dl)) st3 = (Inl e, st)"
              from s4 [OF j3 this] show "K (Empty_dict, st)" by simp
            next
              fix st assume "load_or_compute env fb Mapped_segments mapped_segments_json
                  mapped_segments_json_update
                  (map_speakers_to_segments (float_ops env) (result_segments wr)
                     (itertracks env dl)) st3 = (Inr Scalar, st)"
              from s4 [OF j3 this] have "J4 st" by simp
              then show "K (Empty_dict, st)" by (rule stop4)
            next
              fix ds st4 assume "load_or_compute env fb Mapped_segments mapped_segments_json
                  mapped_segments_json_update
                  (map_speakers_to_segments (float_ops env) (result_segments wr)
                     (itertracks env dl)) st3 = (Inr (Value ds), st4)"
              from s4 [OF j3 this] have j4: "J4 st4" by simp
              show "K (try_step (collect (dict_item ''text'') ds, st4)
                 (\<lambda>texts st4.
                    if ds = [] then (Empty_dict, st4)
                    else enrich env ib fb wav wr ds texts st4))"
              proof (rule try_stepI)
                fix e st assume "(collect (dict_item ''text'') ds, st4) = (Inl e, st)"
                with stop4 [OF j4] show "K (Empty_dict, st)" by simp
              next
                fix texts st assume "(collect (dict_item ''text'') ds, st4) = (Inr texts, st)"
                then have st: "st = st4" by simp
                show "K (if ds = [] then (Empty_dict, st) else enrich env ib fb wav wr ds texts st)"
                proof (cases "ds = []")
                  case True
                  with stop4 [OF j4] st show ?thesis by simp
                next
                  case False
                  have "K (enrich env ib fb wav wr ds texts st4)"
                    using j4 s5 s6 s7a s7b s8 fin
                    by (rule enrich_rule [where ?J4.0 = J4 and ?J5.0 = J5 and ?J6.0 = J6
                          and ?J7.0 = J7 and ?J8.0 = J8 and ?J9.0 = J9])
                  with False st show ?thesis by simp
                qed
              qed
            qed
          qed
        qed
        with p Inr Some wav show ?thesis by (simp add: run_full_pipeline_def)
      qed
    qed
  qed
qed

text \<open>The definitions a concrete run of the pipeline unfolds.\<close>

lemmas run_defs = run_full_pipeline_def enrich_def finish_def try_step_def load_or_compute_def
  use_loaded_def preprocess_audio_def save_intermediate_json_def slice_to_def dict_item_def
  combine_results_def min_len_def seg_data_def list_item_def simplified_segments_def
  save_final_results_def write_final_def csv_row_def feature_columns_def join_keywords_def
  embedding_text_def csv_headers_def demo_env_def on_clip_def demo_transcript_def no_files_def
  spec_turns_def

section \<open>The combining block\<close>

lemma collect_map:
  assumes "\<And>x. x \<in> set xs \<Longrightarrow> f x = Inr (g x)"
  shows "collect f xs = Inr (map g xs)"
  using assms by (induction xs) auto

lemma min_len_le:
  "min_len ds af te tem sem kw \<le> length ds" "min_len ds af te tem sem kw \<le> length af"
  "min_len ds af te tem sem kw \<le> length te" "min_len ds af te tem sem kw \<le> length tem"
  "min_len ds af te tem sem kw \<le> length sem" "min_len ds af te tem sem kw \<le> length kw"
  by (simp_all add: min_len_def)

lemma seg_data_in_range:
  assumes "i < min_len ds af te tem sem kw"
  shows "seg_data ds af te tem sem kw i =
           Inr (merged (ds ! i) (af ! i) (te ! i) (tem ! i) (sem ! i) (kw ! i))"
proof -
  from assms min_len_le [of ds af te tem sem kw]
  have "i < length ds" "i < length af" "i < length te" "i < length tem" "i < length sem"
    "i < length kw"
    by linarith+
  then show ?thesis
    by (simp add: seg_data_def list_item_def merged_def)
qed

lemma combine_results_eq:
  "combine_results ds af te tem sem kw =
     (Inr (map (\<lambda>i. merged (ds ! i) (af ! i) (te ! i) (tem ! i) (sem ! i) (kw ! i))
             [0..<min_len ds af te tem sem kw]),
      if min_len ds af te tem sem kw < length ds
      then [Discrepancy (min_len ds af te tem sem kw) (length ds)] else [])"
proof -
  have "collect (seg_data ds af te tem sem kw) [0..<min_len ds af te tem sem kw] =
          Inr (map (\<lambda>i. merged (ds ! i) (af ! i) (te ! i) (tem ! i) (sem ! i) (kw ! i))
             [0..<min_len ds af te tem sem kw])"
    by (rule collect_map) (simp add: seg_data_in_range)
  then show ?thesis
    by (simp add: combine_results_def Let_def)
qed

lemma map_of_merged:
  "map_of (merged seg af te tem sem kw) =
     (map_of seg)(''audio_features'' \<mapsto> Features af, ''text_embedding'' \<mapsto> NumList te,
        ''text_emotion'' \<mapsto> Str tem, ''speech_emotion'' \<mapsto> Str sem,
        ''keywords'' \<mapsto> StrList kw)"
  by (simp add: merged_def update_conv')

text \<open>
  Claim C8: when one of the five field lists is shorter than the list of mapped
  segments, the combining block of \<open>run_full_pipeline\<close> raises nothing, prints the
  discrepancy warning with the two lengths, and returns as many segments as the
  shortest of the six lists has; segment \<open>i\<close> is the mapped segment \<open>i\<close> with the
  \<open>i\<close>-th element of every field list under the field's key, so no value is made up.
\<close>

theorem combine_truncates_to_shortest:
  assumes "length af < length ds \<or> length te < length ds \<or> length tem < length ds \<or>
           length sem < length ds \<or> length kw < length ds"
  shows "\<exists>final. combine_results ds af te tem sem kw =
             (Inr final, [Discrepancy (length final) (length ds)]) \<and>
           length final = Min {length ds, length af, length te, length tem, length sem, length kw} \<and>
           (\<forall>i < length final.
              i < length ds \<and> i < length af \<and> i < length te \<and> i < length tem \<and>
              i < length sem \<and> i < length kw \<and>
              map_of (final ! i) ''audio_features'' = Some (Features (af ! i)) \<and>
              map_of (final ! i) ''text_embedding'' = Some (NumList (te ! i)) \<and>
              map_of (final ! i) ''text_emotion'' = Some (Str (tem ! i)) \<and>
              map_of (final ! i) ''speech_emotion'' = Some (Str (sem ! i)) \<and>
              map_of (final ! i) ''keywords'' = Some (StrList (kw ! i)) \<and>
              (\<forall>k. k \<notin> {''audio_features'', ''text_embedding'', ''text_emotion'',
                         ''speech_emotion'', ''keywords''} \<longrightarrow>
                   map_of (final ! i) k = map_of (ds ! i) k))"
proof -
  let ?n = "min_len ds af te tem sem kw"
  let ?final = "map (\<lambda>i. merged (ds ! i) (af ! i) (te ! i) (tem ! i) (sem ! i) (kw ! i)) [0..<?n]"
  have len: "length ?final = ?n" by simp
  from assms have short: "?n < length ds"
    by (auto simp: min_len_def)
  have res: "combine_results ds af te tem sem kw = (Inr ?final, [Discrepancy (length ?final) (length ds)])"
    using short by (simp add: combine_results_eq)
  have n: "?n = Min {length ds, length af, length te, length tem, length sem, length kw}"
    by (simp add: min_len_def)
  have fields: "i < length ds \<and> i < length af \<and> i < length te \<and> i < length tem \<and>
              i < length sem \<and> i < length kw \<and>
              map_of (?final ! i) ''audio_features'' = Some (Features (af ! i)) \<and>
              map_of (?final ! i) ''text_embedding'' = Some (NumList (te ! i)) \<and>
              map_of (?final ! i) ''text_emotion'' = Some (Str (tem ! i)) \<and>
              map_of (?final ! i) ''speech_emotion'' = Some (Str (sem ! i)) \<and>
              map_of (?final ! i) ''keywords'' = Some (StrList (kw ! i)) \<and>
              (\<forall>k. k \<notin> {''audio_features'', ''text_embedding'', ''text_emotion'',
                         ''speech_emotion'', ''keywords''} \<longrightarrow>
                   map_of (?final ! i) k = map_of (ds ! i) k)"
    if "i < length ?final" for i
  proof -
    from that have i: "i < ?n" by simp
    with min_len_le [of ds af te tem sem kw]
    have "i < length ds" "i < length af" "i < length te" "i < length tem" "i < length sem"
      "i < length kw"
      by linarith+
    moreover from i have "?final ! i = merged (ds ! i) (af ! i) (te ! i) (tem ! i) (sem ! i) (kw ! i)"
      by simp
    ultimately show ?thesis
      by (simp add: map_of_merged)
  qed
  from res len n fields show ?thesis
    by (intro exI [of _ ?final]) (simp only: simp_thms, blast)
qed

text \<open>
  The example of the specification for claim C8: five mapped segments and three speech
  emotions give three segments and the warning.
\<close>

theorem combine_truncates_to_shortest_witness:
  "\<exists>final. combine_results lengths5
       (replicate 5 \<lparr>mfccs = [], chroma = [], rms_energy = 0\<rparr>) (replicate 5 [0])
       (replicate 5 ''joy'') (replicate 3 ''neu'') (replicate 5 [''hello'']) =
       (Inr final, [Discrepancy 3 5]) \<and> length final = 3"
proof -
  have short: "length (replicate 3 ''neu'') < length lengths5"
    by (simp add: lengths5_def)
  from combine_truncates_to_shortest [of "replicate 5 \<lparr>mfccs = [], chroma = [], rms_energy = 0\<rparr>"
      lengths5 "replicate 5 [0]" "replicate 5 ''joy''" "replicate 3 ''neu''" "replicate 5 [''hello'']"]
    short
  obtain final where "combine_results lengths5
       (replicate 5 \<lparr>mfccs = [], chroma = [], rms_energy = 0\<rparr>) (replicate 5 [0])
       (replicate 5 ''joy'') (replicate 3 ''neu'') (replicate 5 [''hello'']) =
       (Inr final, [Discrepancy (length final) (length lengths5)])"
    and "length final = Min {length lengths5, length (replicate 5 \<lparr>mfccs = [], chroma = [], rms_energy = 0::real\<rparr>),
        length (replicate 5 [0::real]), length (replicate 5 ''joy''), length (replicate 3 ''neu''),
        length (replicate 5 [''hello''])}"
    by blast
  then show ?thesis by (simp add: lengths5_def)
qed

section \<open>What a step does\<close>

lemma record_status_updates:
  "record_status (whisper_raw_json_update f1 fs) s =
     (if s = Whisper_raw then json_state (f1 (whisper_raw_json fs)) else record_status fs s)"
  "record_status (diarization_raw_json_update f2 fs) s =
     (if s = Diarization_raw then json_state (f2 (diarization_raw_json fs)) else record_status fs s)"
  "record_status (mapped_segments_json_update f3 fs) s =
     (if s = Mapped_segments then json_state (f3 (mapped_segments_json fs)) else record_status fs s)"
  "record_status (audio_features_json_update f4 fs) s =
     (if s = Audio_features then json_state (f4 (audio_features_json fs)) else record_status fs s)"
  "record_status (text_embeddings_json_update f5 fs) s =
     (if s = Text_embeddings then json_state (f5 (text_embeddings_json fs)) else record_status fs s)"
  "record_status (text_emotions_json_update f6 fs) s =
     (if s = Text_emotions then json_state (f6 (text_emotions_json fs)) else record_status fs s)"
  "record_status (speech_emotions_json_update f7 fs) s =
     (if s = Speech_emotions then json_state (f7 (speech_emotions_json fs)) else record_status fs s)"
  "record_status (keywords_json_update f8 fs) s =
     (if s = Keywords then json_state (f8 (keywords_json fs)) else record_status fs s)"
  "record_status (final_files_update f9 fs) s = record_status fs s"
  "record_status (trimmed_wav_update f0 fs) s =
     (if s = Trimmed_wav then wav_state (f0 (trimmed_wav fs)) else record_status fs s)"
  by (cases s; simp)+

lemma slots:
  "slot_of Whisper_raw whisper_raw_json whisper_raw_json_update"
  "slot_of Diarization_raw diarization_raw_json diarization_raw_json_update"
  "slot_of Mapped_segments mapped_segments_json mapped_segments_json_update"
  "slot_of Audio_features audio_features_json audio_features_json_update"
  "slot_of Text_embeddings text_embeddings_json text_embeddings_json_update"
  "slot_of Text_emotions text_emotions_json text_emotions_json_update"
  "slot_of Speech_emotions speech_emotions_json speech_emotions_json_update"
  "slot_of Keywords keywords_json keywords_json_update"
  by (simp_all add: slot_of_def record_status_updates)

lemma json_state_Valid: "json_state x = Valid \<longleftrightarrow> (\<exists>d. x = Some (Parsed d))"
  by (cases x rule: json_state.cases) auto

lemma json_state_Missing: "json_state x = Missing \<longleftrightarrow> x = None"
  by (cases x rule: json_state.cases) auto

lemma load_None:
  "load_intermediate_json x = None \<longleftrightarrow> json_state x = Missing \<or> json_state x = Damaged"
  by (cases x rule: json_state.cases) auto

lemma load_Value: "load_intermediate_json x = Some (Value d) \<longleftrightarrow> x = Some (Parsed d)"
  by (cases x rule: json_state.cases) auto

lemma load_or_compute_cases:
  assumes "load_or_compute env fb s get upd c st = (r, st')"
  obtains (loaded) l where "load_intermediate_json (get (files st)) = Some l" "r = Inr l" "st' = st"
  | (raised) e where "load_intermediate_json (get (files st)) = None" "c = Inl e" "r = Inl e"
      "st' = st\<lparr>calls := calls st @ [s], raised := raised st @ [s]\<rparr>"
  | (unsaved) d e where "load_intermediate_json (get (files st)) = None" "c = Inr d"
      "makedirs env (fb @ ''_'' @ step_name s @ ''.json'') = Some e" "r = Inl e"
      "st' = st\<lparr>calls := calls st @ [s]\<rparr>"
  | (computed) d where "load_intermediate_json (get (files st)) = None" "c = Inr d"
      "makedirs env (fb @ ''_'' @ step_name s @ ''.json'') = None" "r = Inr (Value d)"
      "st' = st\<lparr>files := upd (\<lambda>old. saved_as env fb s d (get (files st))) (files st),
                calls := calls st @ [s]\<rparr>"
proof (cases "load_intermediate_json (get (files st))")
  case (Some l)
  moreover from Some assms have "r = Inr l" "st' = st"
    by (auto simp: load_or_compute_def)
  ultimately show ?thesis by (rule loaded)
next
  case None
  show ?thesis
  proof (cases c)
    case (Inl e)
    with None assms have "r = Inl e"
      "st' = st\<lparr>calls := calls st @ [s], raised := raised st @ [s]\<rparr>"
      by (auto simp: load_or_compute_def)
    with None Inl show ?thesis by (intro raised)
  next
    case (Inr d)
    show ?thesis
    proof (cases "makedirs env (fb @ ''_'' @ step_name s @ ''.json'')")
      case mk: None
      with None Inr assms have "r = Inr (Value d)"
        "st' = st\<lparr>files := upd (\<lambda>old. saved_as env fb s d (get (files st))) (files st),
                  calls := calls st @ [s]\<rparr>"
        by (auto simp: load_or_compute_def save_intermediate_json_def saved_as_def)
      with None Inr mk show ?thesis by (intro computed)
    next
      case mk: (Some e)
      with None Inr assms have "r = Inl e" "st' = st\<lparr>calls := calls st @ [s]\<rparr>"
        by (auto simp: load_or_compute_def save_intermediate_json_def)
      with None Inr mk show ?thesis by (intro unsaved)
    qed
  qed
qed

lemma preprocess_audio_cases:
  assumes "preprocess_audio env fb m st = (p, st')"
  obtains (no_directory) e where "makedirs env (fb @ ''_trimmed.wav'') = Some e" "p = Inl e"
      "st' = st\<lparr>raised := raised st @ [Trimmed_wav]\<rparr>"
  | (present) w where "makedirs env (fb @ ''_trimmed.wav'') = None"
      "trimmed_wav (files st) = Some w" "p = Inr (Some (fb @ ''_trimmed.wav''))" "st' = st"
  | (failed) "makedirs env (fb @ ''_trimmed.wav'') = None" "trimmed_wav (files st) = None"
      "p = Inr None"
      "st' = st\<lparr>calls := calls st @ [Trimmed_wav], raised := raised st @ [Trimmed_wav]\<rparr>"
  | (broken_off) "makedirs env (fb @ ''_trimmed.wav'') = None" "trimmed_wav (files st) = None"
      "p = Inr None"
      "st' = st\<lparr>files := (files st)\<lparr>trimmed_wav := Some Damaged_wav\<rparr>,
                calls := calls st @ [Trimmed_wav], raised := raised st @ [Trimmed_wav]\<rparr>"
  | (exported) a where "makedirs env (fb @ ''_trimmed.wav'') = None"
      "trimmed_wav (files st) = None" "from_file env = Inr a"
      "write_file env (fb @ ''_trimmed.wav'') = Written"
      "p = Inr (Some (fb @ ''_trimmed.wav''))"
      "st' = st\<lparr>files := (files st)\<lparr>trimmed_wav := Some (Clip (slice_to a (m * 1000)))\<rparr>,
                calls := calls st @ [Trimmed_wav]\<rparr>"
  using assms
  by (auto simp: preprocess_audio_def Let_def
      split: option.splits sum.splits write_outcome.splits)

lemma step_caseI:
  assumes "P" and "P \<Longrightarrow> K (Empty_dict, st')" and "P \<Longrightarrow> J st'"
  shows "case r of Inl e \<Rightarrow> K (Empty_dict, st') | Inr x \<Rightarrow> J st'"
  using assms by (cases r) auto

text \<open>Only \<open>save_final_results\<close> touches the final files.\<close>

lemma load_or_compute_final_files:
  assumes "slot_of s get upd" and "load_or_compute env fb s get upd c st = (r, st')"
  shows "final_files (files st') = final_files (files st)"
  using assms(2) by (rule load_or_compute_cases) (use assms(1) in \<open>auto simp: slot_of_def\<close>)

lemma preprocess_audio_final_files:
  assumes "preprocess_audio env fb m st = (p, st')"
  shows "final_files (files st') = final_files (files st)"
  using assms by (rule preprocess_audio_cases) auto

lemma map_of_write_final:
  "map_of (final_files (write_final env path content fs)) name =
     (if name = path then file_after env path content (map_of (final_files fs) name)
      else map_of (final_files fs) name)"
  by (simp add: write_final_def file_after_def update_conv' split: write_outcome.splits)

lemma write_final_shape:
  "write_final env path content fs =
     fs\<lparr>final_files := final_files (write_final env path content fs)\<rparr>"
  by (simp add: write_final_def split: write_outcome.splits)

text \<open>
  \<open>save_final_results\<close> raises what \<open>os.makedirs\<close> raises; otherwise it changes the
  three files of its base name and nothing else.
\<close>

lemma save_final_results_cases:
  assumes "save_final_results env (fb @ ''_no_embeddings'') doc segs fs = r"
  obtains (no_directory) e where
      "makedirs env (fb @ ''_no_embeddings_final_output.json'') = Some e" "r = Inl e"
  | (written) fs' where "makedirs env (fb @ ''_no_embeddings_final_output.json'') = None"
      "r = Inr fs'" "fs' = fs\<lparr>final_files := final_files fs'\<rparr>"
      "map_of (final_files fs') (fb @ ''_no_embeddings_final_output.json'') =
         file_after env (fb @ ''_no_embeddings_final_output.json'') (Json_document doc)
           (map_of (final_files fs) (fb @ ''_no_embeddings_final_output.json''))"
      "map_of (final_files fs') (fb @ ''_no_embeddings_summary.csv'') =
         (if segs = [] then map_of (final_files fs) (fb @ ''_no_embeddings_summary.csv'')
          else file_after env (fb @ ''_no_embeddings_summary.csv'') (Csv_summary (csv_rows segs))
                 (map_of (final_files fs) (fb @ ''_no_embeddings_summary.csv'')))"
      "map_of (final_files fs') (fb @ ''_no_embeddings_transcript.txt'') =
         file_after env (fb @ ''_no_embeddings_transcript.txt'') (Transcript (full_transcript doc))
           (map_of (final_files fs) (fb @ ''_no_embeddings_transcript.txt''))"
      "\<And>name. name \<notin> no_embeddings_names fb \<Longrightarrow>
         map_of (final_files fs') name = map_of (final_files fs) name"
proof (cases "makedirs env (fb @ ''_no_embeddings_final_output.json'')")
  case (Some e)
  with assms have "r = Inl e" by (auto simp: save_final_results_def)
  with Some show ?thesis by (rule no_directory)
next
  case None
  define fs1 where "fs1 = write_final env (fb @ ''_no_embeddings_final_output.json'')
      (Json_document doc) fs"
  define fs2 where "fs2 = (if segs \<noteq> []
      then write_final env (fb @ ''_no_embeddings_summary.csv'') (Csv_summary (csv_rows segs)) fs1
      else fs1)"
  define fs' where "fs' = write_final env (fb @ ''_no_embeddings_transcript.txt'')
      (Transcript (full_transcript doc)) fs2"
  from None assms have r: "r = Inr fs'"
    by (auto simp: save_final_results_def Let_def fs'_def fs2_def fs1_def)
  have shape: "fs' = fs\<lparr>final_files := final_files fs'\<rparr>"
    unfolding fs'_def fs2_def fs1_def
    by (simp add: write_final_def split: write_outcome.splits)
  have json_f: "map_of (final_files fs') (fb @ ''_no_embeddings_final_output.json'') =
         file_after env (fb @ ''_no_embeddings_final_output.json'') (Json_document doc)
           (map_of (final_files fs) (fb @ ''_no_embeddings_final_output.json''))"
    unfolding fs'_def fs2_def fs1_def by (simp add: map_of_write_final)
  have csv_f: "map_of (final_files fs') (fb @ ''_no_embeddings_summary.csv'') =
         (if segs = [] then map_of (final_files fs) (fb @ ''_no_embeddings_summary.csv'')
          else file_after env (fb @ ''_no_embeddings_summary.csv'') (Csv_summary (csv_rows segs))
                 (map_of (final_files fs) (fb @ ''_no_embeddings_summary.csv'')))"
    unfolding fs'_def fs2_def fs1_def by (simp add: map_of_write_final)
  have txt_f: "map_of (final_files fs') (fb @ ''_no_embeddings_transcript.txt'') =
         file_after env (fb @ ''_no_embeddings_transcript.txt'') (Transcript (full_transcript doc))
           (map_of (final_files fs) (fb @ ''_no_embeddings_transcript.txt''))"
    unfolding fs'_def fs2_def fs1_def by (simp add: map_of_write_final)
  have others: "map_of (final_files fs') name = map_of (final_files fs) name"
    if "name \<notin> no_embeddings_names fb" for name
    using that unfolding fs'_def fs2_def fs1_def
    by (simp add: map_of_write_final no_embeddings_names_def)
  from None r shape json_f csv_f txt_f others show ?thesis by (rule written)
qed

lemma finish_eq:
  "finish env ib fb wr ds (Value af) (Value te) (Value tem) (Value sem) (Value kw) st =
     (let final_segments =
            map (\<lambda>i. merged (ds ! i) (af ! i) (te ! i) (tem ! i) (sem ! i) (kw ! i))
              [0..<min_len ds af te tem sem kw]
      in case save_final_results env (fb @ ''_no_embeddings'')
                \<lparr>audio_file = ib, full_transcript = strip (result_text wr),
                 segments = simplified_segments final_segments\<rparr>
                (simplified_segments final_segments) (files st) of
           Inl e \<Rightarrow> (Uncaught e, st)
         | Inr fs \<Rightarrow>
             (Document \<lparr>audio_file = ib, full_transcript = strip (result_text wr),
                        segments = final_segments\<rparr>,
              st\<lparr>files := fs\<rparr>))"
  by (simp add: finish_def combine_results_eq Let_def)

lemma finish_scalar:
  assumes "af = Scalar \<or> te = Scalar \<or> tem = Scalar \<or> sem = Scalar \<or> kw = Scalar"
  shows "finish env ib fb wr ds af te tem sem kw st = (Uncaught TypeError, st)"
proof (cases af)
  case Scalar
  then show ?thesis by (simp add: finish_def)
next
  case af: (Value af')
  show ?thesis
  proof (cases te)
    case Scalar
    with af show ?thesis by (simp add: finish_def)
  next
    case te: (Value te')
    show ?thesis
    proof (cases tem)
      case Scalar
      with af te show ?thesis by (simp add: finish_def)
    next
      case tem: (Value tem')
      show ?thesis
      proof (cases sem)
        case Scalar
        with af te tem show ?thesis by (simp add: finish_def)
      next
        case sem: (Value sem')
        with assms af te tem have "kw = Scalar" by simp
        with af te tem sem show ?thesis by (simp add: finish_def)
      qed
    qed
  qed
qed

text \<open>
  The end of the run: an exception of \<open>len\<close> or of \<open>os.makedirs\<close> that nothing
  catches and no file written, or the document returned and the three files of the
  simplified document written.
\<close>

lemma finish_cases:
  assumes "finish env ib fb wr ds af te tem sem kw st = (out, st')"
  obtains (uncaught) e where "out = Uncaught e" "st' = st"
  | (document) d fs' where "out = Document d" "st' = st\<lparr>files := fs'\<rparr>"
      "save_final_results env (fb @ ''_no_embeddings'') (d\<lparr>segments := simplified_segments (segments d)\<rparr>)
         (simplified_segments (segments d)) (files st) = Inr fs'"
      "\<forall>seg \<in> set (segments d).
         map_of seg ''audio_features'' \<noteq> None \<and> map_of seg ''text_embedding'' \<noteq> None"
proof -
  consider (scalar) "af = Scalar \<or> te = Scalar \<or> tem = Scalar \<or> sem = Scalar \<or> kw = Scalar"
    | (loaded_values) af' te' tem' sem' kw' where "af = Value af'" "te = Value te'" "tem = Value tem'"
        "sem = Value sem'" "kw = Value kw'"
    by (meson loaded.exhaust)
  then show ?thesis
  proof cases
    case scalar
    then have "finish env ib fb wr ds af te tem sem kw st = (Uncaught TypeError, st)"
      by (rule finish_scalar)
    with assms have "out = Uncaught TypeError" "st' = st"
      by simp_all
    then show ?thesis by (rule uncaught)
  next
    case loaded_values
    let ?final = "map (\<lambda>i. merged (ds ! i) (af' ! i) (te' ! i) (tem' ! i) (sem' ! i) (kw' ! i))
              [0..<min_len ds af' te' tem' sem' kw']"
    let ?d = "\<lparr>audio_file = ib, full_transcript = strip (result_text wr), segments = ?final\<rparr>"
    let ?save = "save_final_results env (fb @ ''_no_embeddings'')
        (?d\<lparr>segments := simplified_segments (segments ?d)\<rparr>)
        (simplified_segments (segments ?d)) (files st)"
    show ?thesis
    proof (cases ?save)
      case (Inl e)
      with assms loaded_values have "out = Uncaught e" "st' = st"
        by (simp_all add: finish_eq Let_def)
      then show ?thesis by (rule uncaught)
    next
      case (Inr fs')
      with assms loaded_values have "out = Document ?d" "st' = st\<lparr>files := fs'\<rparr>"
        by (simp_all add: finish_eq Let_def)
      moreover have "\<forall>seg \<in> set (segments ?d).
         map_of seg ''audio_features'' \<noteq> None \<and> map_of seg ''text_embedding'' \<noteq> None"
        by (auto simp: map_of_merged)
      ultimately show ?thesis using Inr by (intro document)
    qed
  qed
qed

lemma finish_state:
  "\<exists>out ff. finish env ib fb wr ds af te tem sem kw st =
     (out, st\<lparr>files := (files st)\<lparr>final_files := ff\<rparr>\<rparr>) \<and> out \<noteq> Empty_dict"
proof -
  obtain out st' where run: "finish env ib fb wr ds af te tem sem kw st = (out, st')"
    by (cases "finish env ib fb wr ds af te tem sem kw st")
  then show ?thesis
  proof (cases rule: finish_cases)
    case (uncaught e)
    with run have "finish env ib fb wr ds af te tem sem kw st =
        (Uncaught e, st\<lparr>files := (files st)\<lparr>final_files := final_files (files st)\<rparr>\<rparr>)"
      by simp
    moreover have "Uncaught e \<noteq> Empty_dict" by simp
    ultimately show ?thesis by blast
  next
    case (document d fs')
    from document(3) have "fs' = (files st)\<lparr>final_files := final_files fs'\<rparr>"
      by (rule save_final_results_cases) simp_all
    with run document(1,2) have "finish env ib fb wr ds af te tem sem kw st =
        (Document d, st\<lparr>files := (files st)\<lparr>final_files := final_files fs'\<rparr>\<rparr>)"
      by simp
    moreover have "Document d \<noteq> Empty_dict" by simp
    ultimately show ?thesis by blast
  qed
qed

lemma simplified_no_heavy:
  assumes "seg \<in> set (simplified_segments final_segments)"
  shows "map_of seg ''audio_features'' = None \<and> map_of seg ''text_embedding'' = None"
  using assms by (auto simp: simplified_segments_def delete_conv')

lemma join_keywords_others:
  assumes "join_keywords r = Inr r'" and "k \<noteq> ''keywords''"
  shows "map_of r' k = map_of r k"
proof (cases "map_of r ''keywords''")
  case None
  with assms show ?thesis by (simp add: join_keywords_def)
next
  case (Some v)
  with assms show ?thesis
    by (cases v) (auto simp: join_keywords_def update_conv' split: if_splits)
qed

text \<open>
  The row of a segment without features and embedding: the feature columns hold the
  defaults, and no embedding comes in.
\<close>

lemma csv_row_no_heavy:
  assumes "map_of seg ''audio_features'' = None" and "map_of seg ''text_embedding'' = None"
    and "csv_row seg = Inr row"
  shows "map_of row ''audio_features'' = None \<and> map_of row ''text_embedding'' = None \<and>
         map_of row ''audio_features_mfccs'' = Some (Repr (NumList [])) \<and>
         map_of row ''audio_features_chroma'' = Some (Repr (NumList [])) \<and>
         map_of row ''audio_features_rms_energy'' = Some (Num 0)"
proof -
  define row1 where "row1 = AList.update ''audio_features_rms_energy'' (Num 0)
              (AList.update ''audio_features_chroma'' (Repr (NumList []))
              (AList.update ''audio_features_mfccs'' (Repr (NumList []))
              (AList.delete ''audio_features'' seg)))"
  from assms(1) have f: "feature_columns seg = Inr row1"
    by (simp add: feature_columns_def row1_def)
  have m1: "map_of row1 ''audio_features'' = None" "map_of row1 ''text_embedding'' = None"
    "map_of row1 ''audio_features_mfccs'' = Some (Repr (NumList []))"
    "map_of row1 ''audio_features_chroma'' = Some (Repr (NumList []))"
    "map_of row1 ''audio_features_rms_energy'' = Some (Num 0)"
    using assms(2) by (simp_all add: row1_def update_conv' delete_conv')
  from assms(3) f obtain row2 where j: "join_keywords row1 = Inr row2"
    and r: "row = embedding_text row2"
    by (cases "join_keywords row1") (simp_all add: csv_row_def Let_def split: if_splits)
  have m2: "map_of row2 ''audio_features'' = None" "map_of row2 ''text_embedding'' = None"
    "map_of row2 ''audio_features_mfccs'' = Some (Repr (NumList []))"
    "map_of row2 ''audio_features_chroma'' = Some (Repr (NumList []))"
    "map_of row2 ''audio_features_rms_energy'' = Some (Num 0)"
    using m1 by (simp_all add: join_keywords_others [OF j])
  from m2(2) have "embedding_text row2 = row2"
    by (simp add: embedding_text_def)
  with r m2 show ?thesis by simp
qed

lemma csv_rows_from: "row \<in> set (csv_rows segs) \<Longrightarrow> \<exists>seg \<in> set segs. csv_row seg = Inr row"
proof (induction segs)
  case Nil
  then show ?case by simp
next
  case (Cons seg segs)
  then show ?case by (cases "csv_row seg") auto
qed

section \<open>Claims on the final document and the combining block\<close>

text \<open>
  Claim C10: when \<open>run_full_pipeline\<close> returns a document, the final files it has
  touched are the three of the \<open>_no_embeddings\<close> variant and no other;
  \<open>{filename_base}_final_output.json\<close> is as it was before the run. Each of the three
  holds what its write leaves: the JSON file the returned document with its segments
  simplified, the CSV file the rows made of the simplified segments, the text file the
  transcript. No simplified segment has an \<open>audio_features\<close> or \<open>text_embedding\<close> key
  and no row of the CSV file has one, its feature columns holding the defaults for
  missing features; while every segment of the returned document has both keys.
\<close>

theorem only_simplified_document_written:
  assumes "run_full_pipeline env ib fb m st0 = (Document d, st')"
  shows "(\<forall>name. name \<notin> no_embeddings_names fb \<longrightarrow>
            map_of (final_files (files st')) name = map_of (final_files (files st0)) name) \<and>
         map_of (final_files (files st')) (fb @ ''_final_output.json'') =
           map_of (final_files (files st0)) (fb @ ''_final_output.json'') \<and>
         map_of (final_files (files st')) (fb @ ''_no_embeddings_final_output.json'') =
           file_after env (fb @ ''_no_embeddings_final_output.json'')
             (Json_document (d\<lparr>segments := simplified_segments (segments d)\<rparr>))
             (map_of (final_files (files st0)) (fb @ ''_no_embeddings_final_output.json'')) \<and>
         map_of (final_files (files st')) (fb @ ''_no_embeddings_summary.csv'') =
           (if segments d = []
            then map_of (final_files (files st0)) (fb @ ''_no_embeddings_summary.csv'')
            else file_after env (fb @ ''_no_embeddings_summary.csv'')
                   (Csv_summary (csv_rows (simplified_segments (segments d))))
                   (map_of (final_files (files st0)) (fb @ ''_no_embeddings_summary.csv''))) \<and>
         map_of (final_files (files st')) (fb @ ''_no_embeddings_transcript.txt'') =
           file_after env (fb @ ''_no_embeddings_transcript.txt'') (Transcript (full_transcript d))
             (map_of (final_files (files st0)) (fb @ ''_no_embeddings_transcript.txt'')) \<and>
         (\<forall>seg \<in> set (simplified_segments (segments d)).
            map_of seg ''audio_features'' = None \<and> map_of seg ''text_embedding'' = None) \<and>
         (\<forall>row \<in> set (csv_rows (simplified_segments (segments d))).
            map_of row ''audio_features'' = None \<and> map_of row ''text_embedding'' = None \<and>
            map_of row ''audio_features_mfccs'' = Some (Repr (NumList [])) \<and>
            map_of row ''audio_features_chroma'' = Some (Repr (NumList [])) \<and>
            map_of row ''audio_features_rms_energy'' = Some (Num 0)) \<and>
         (\<forall>seg \<in> set (segments d).
            map_of seg ''audio_features'' \<noteq> None \<and> map_of seg ''text_embedding'' \<noteq> None)"
proof -
  define J where "J st \<longleftrightarrow> final_files (files st) = final_files (files st0)" for st :: state
  define K where "K r \<longleftrightarrow>
    (\<forall>d st'. r = (Document d, st') \<longrightarrow>
      (\<exists>fs. final_files fs = final_files (files st0) \<and>
         save_final_results env (fb @ ''_no_embeddings'')
           (d\<lparr>segments := simplified_segments (segments d)\<rparr>)
           (simplified_segments (segments d)) fs = Inr (files st')) \<and>
      (\<forall>seg \<in> set (segments d).
            map_of seg ''audio_features'' \<noteq> None \<and> map_of seg ''text_embedding'' \<noteq> None))"
    for r :: "outcome \<times> state"
  have stop: "K (Empty_dict, st)" for st
    by (simp add: K_def)
  have step: "case r of Inl e \<Rightarrow> K (Empty_dict, st') | Inr x \<Rightarrow> J st'"
    if "J st" and "slot_of s get upd" and "load_or_compute env fb s get upd c st = (r, st')"
    for s and get :: "files \<Rightarrow> 'r json_file option" and upd c st st'
      and r :: "error + 'r loaded"
  proof (rule step_caseI [where P = "J st'"])
    from load_or_compute_final_files [OF that(2,3)] that(1) show "J st'"
      by (simp add: J_def)
  qed (simp_all add: stop)
  have "K (run_full_pipeline env ib fb m st0)"
  proof (rule run_full_pipeline_rule [where ?J1.0 = J and ?J2.0 = J and ?J3.0 = J and ?J4.0 = J
        and ?J5.0 = J and ?J6.0 = J and ?J7.0 = J and ?J8.0 = J and ?J9.0 = J])
    fix p st' assume "preprocess_audio env fb m st0 = (p, st')"
    from preprocess_audio_final_files [OF this]
    show "case p of Inl e \<Rightarrow> K (Uncaught e, st') | Inr None \<Rightarrow> K (Empty_dict, st')
         | Inr (Some path) \<Rightarrow> J st'"
      by (simp add: J_def K_def split: option.splits sum.splits)
  next
    fix wr ds af te tem sem kw st assume j: "J st"
    obtain out st' where run: "finish env ib fb wr ds af te tem sem kw st = (out, st')"
      by (cases "finish env ib fb wr ds af te tem sem kw st")
    then have "K (out, st')"
    proof (cases rule: finish_cases)
      case (uncaught e)
      then show ?thesis by (simp add: K_def)
    next
      case (document d fs')
      from document(2) have "files st' = fs'" by simp
      with document(3) j have "\<exists>fs. final_files fs = final_files (files st0) \<and>
         save_final_results env (fb @ ''_no_embeddings'')
           (d\<lparr>segments := simplified_segments (segments d)\<rparr>)
           (simplified_segments (segments d)) fs = Inr (files st')"
        unfolding J_def by (intro exI [of _ "files st"]) simp
      with document(1,4) show ?thesis
        by (simp add: K_def)
    qed
    with run show "K (finish env ib fb wr ds af te tem sem kw st)" by simp
  qed (rule stop step slots | assumption)+
  with assms obtain fs where ff: "final_files fs = final_files (files st0)"
    and save: "save_final_results env (fb @ ''_no_embeddings'')
           (d\<lparr>segments := simplified_segments (segments d)\<rparr>)
           (simplified_segments (segments d)) fs = Inr (files st')"
    and heavy: "\<forall>seg \<in> set (segments d).
            map_of seg ''audio_features'' \<noteq> None \<and> map_of seg ''text_embedding'' \<noteq> None"
    unfolding K_def by blast
  from save have written:
    "map_of (final_files (files st')) (fb @ ''_no_embeddings_final_output.json'') =
       file_after env (fb @ ''_no_embeddings_final_output.json'')
         (Json_document (d\<lparr>segments := simplified_segments (segments d)\<rparr>))
         (map_of (final_files (files st0)) (fb @ ''_no_embeddings_final_output.json''))"
    "map_of (final_files (files st')) (fb @ ''_no_embeddings_summary.csv'') =
       (if segments d = []
        then map_of (final_files (files st0)) (fb @ ''_no_embeddings_summary.csv'')
        else file_after env (fb @ ''_no_embeddings_summary.csv'')
               (Csv_summary (csv_rows (simplified_segments (segments d))))
               (map_of (final_files (files st0)) (fb @ ''_no_embeddings_summary.csv'')))"
    "map_of (final_files (files st')) (fb @ ''_no_embeddings_transcript.txt'') =
       file_after env (fb @ ''_no_embeddings_transcript.txt'') (Transcript (full_transcript d))
         (map_of (final_files (files st0)) (fb @ ''_no_embeddings_transcript.txt''))"
    and others: "\<And>name. name \<notin> no_embeddings_names fb \<Longrightarrow>
       map_of (final_files (files st')) name = map_of (final_files (files st0)) name"
    by (cases rule: save_final_results_cases; simp add: ff simplified_segments_def)+
  have "fb @ ''_final_output.json'' \<notin> no_embeddings_names fb"
    by (simp add: no_embeddings_names_def)
  with others have full: "map_of (final_files (files st')) (fb @ ''_final_output.json'') =
           map_of (final_files (files st0)) (fb @ ''_final_output.json'')"
    by blast
  have rows: "map_of row ''audio_features'' = None \<and> map_of row ''text_embedding'' = None \<and>
            map_of row ''audio_features_mfccs'' = Some (Repr (NumList [])) \<and>
            map_of row ''audio_features_chroma'' = Some (Repr (NumList [])) \<and>
            map_of row ''audio_features_rms_energy'' = Some (Num 0)"
    if "row \<in> set (csv_rows (simplified_segments (segments d)))" for row
  proof -
    from that obtain seg where seg: "seg \<in> set (simplified_segments (segments d))"
      and row: "csv_row seg = Inr row"
      using csv_rows_from by blast
    from simplified_no_heavy [OF seg] row show ?thesis
      by (intro csv_row_no_heavy [of seg]) simp_all
  qed
  from others full written simplified_no_heavy rows heavy show ?thesis
    by (intro conjI allI impI ballI) blast+
qed

lemma demo_run:
  "fst (run_full_pipeline demo_env ''talk.mp3'' ''talk'' 300 \<lparr>files = no_files, calls = [], raised = []\<rparr>) =
     Document demo_document"
  by (simp add: run_defs eval_defs upt_rec demo_document_def)

lemma demo_final_files:
  "final_files (files (snd (run_full_pipeline demo_env ''talk.mp3'' ''talk'' 300
      \<lparr>files = no_files, calls = [], raised = []\<rparr>))) =
     [(''talk_no_embeddings_final_output.json'',
       Json_document (demo_document\<lparr>segments := demo_simplified\<rparr>)),
      (''talk_no_embeddings_summary.csv'', Csv_summary demo_rows),
      (''talk_no_embeddings_transcript.txt'', Transcript (ascii ''hello bye''))]"
  by (simp add: run_defs eval_defs upt_rec demo_document_def demo_simplified_def demo_rows_def)

text \<open>
  The run of \<open>demo_env\<close> writes the simplified document, the rows of its segments and
  the transcript, and no full document.
\<close>

theorem only_simplified_document_written_witness:
  "fst (run_full_pipeline demo_env ''talk.mp3'' ''talk'' 300 \<lparr>files = no_files, calls = [], raised = []\<rparr>) =
     Document demo_document \<and>
   simplified_segments (segments demo_document) = demo_simplified \<and>
   csv_rows demo_simplified = demo_rows \<and>
   map_of (final_files (files (snd (run_full_pipeline demo_env ''talk.mp3'' ''talk'' 300
             \<lparr>files = no_files, calls = [], raised = []\<rparr>)))) ''talk_no_embeddings_final_output.json'' =
     Some (Json_document (demo_document\<lparr>segments := demo_simplified\<rparr>)) \<and>
   map_of (final_files (files (snd (run_full_pipeline demo_env ''talk.mp3'' ''talk'' 300
             \<lparr>files = no_files, calls = [], raised = []\<rparr>)))) ''talk_no_embeddings_summary.csv'' =
     Some (Csv_summary demo_rows) \<and>
   map_of (final_files (files (snd (run_full_pipeline demo_env ''talk.mp3'' ''talk'' 300
             \<lparr>files = no_files, calls = [], raised = []\<rparr>)))) ''talk_no_embeddings_transcript.txt'' =
     Some (Transcript (ascii ''hello bye'')) \<and>
   map_of (final_files (files (snd (run_full_pipeline demo_env ''talk.mp3'' ''talk'' 300
             \<lparr>files = no_files, calls = [], raised = []\<rparr>)))) ''talk_final_output.json'' = None"
proof -
  let ?run = "run_full_pipeline demo_env ''talk.mp3'' ''talk'' 300 \<lparr>files = no_files, calls = [], raised = []\<rparr>"
  have run: "?run = (Document demo_document, snd ?run)"
    using demo_run by (metis prod.collapse)
  have simp_segs: "simplified_segments (segments demo_document) = demo_simplified"
    by (simp add: simplified_segments_def demo_document_def demo_simplified_def)
  have rows: "csv_rows demo_simplified = demo_rows"
    by (simp add: demo_simplified_def demo_rows_def csv_row_def feature_columns_def
        join_keywords_def embedding_text_def csv_headers_def)
  have ne: "segments demo_document \<noteq> []"
    by (simp add: demo_document_def)
  have after: "file_after demo_env path content None = Some content" for path content
    by (simp add: file_after_def demo_env_def)
  have before: "map_of (final_files (files \<lparr>files = no_files, calls = [], raised = []\<rparr>)) name = None"
    for name
    by (simp add: no_files_def)
  have transcript: "full_transcript demo_document = ascii ''hello bye''"
    by (simp add: demo_document_def)
  note all = only_simplified_document_written [OF run]
  from all have "map_of (final_files (files (snd ?run))) (''talk'' @ ''_no_embeddings_final_output.json'') =
      file_after demo_env (''talk'' @ ''_no_embeddings_final_output.json'')
        (Json_document (demo_document\<lparr>segments := simplified_segments (segments demo_document)\<rparr>))
        (map_of (final_files (files \<lparr>files = no_files, calls = [], raised = []\<rparr>))
           (''talk'' @ ''_no_embeddings_final_output.json''))"
    by (elim conjE)
  then have json_f: "map_of (final_files (files (snd ?run))) ''talk_no_embeddings_final_output.json'' =
      Some (Json_document (demo_document\<lparr>segments := demo_simplified\<rparr>))"
    by (simp only: before after simp_segs) simp
  from all have "map_of (final_files (files (snd ?run))) (''talk'' @ ''_no_embeddings_summary.csv'') =
      (if segments demo_document = []
       then map_of (final_files (files \<lparr>files = no_files, calls = [], raised = []\<rparr>))
              (''talk'' @ ''_no_embeddings_summary.csv'')
       else file_after demo_env (''talk'' @ ''_no_embeddings_summary.csv'')
              (Csv_summary (csv_rows (simplified_segments (segments demo_document))))
              (map_of (final_files (files \<lparr>files = no_files, calls = [], raised = []\<rparr>))
                 (''talk'' @ ''_no_embeddings_summary.csv'')))"
    by (elim conjE)
  then have csv_f: "map_of (final_files (files (snd ?run))) ''talk_no_embeddings_summary.csv'' =
      Some (Csv_summary demo_rows)"
    by (simp only: before after simp_segs rows ne if_False) simp
  from all have "map_of (final_files (files (snd ?run))) (''talk'' @ ''_no_embeddings_transcript.txt'') =
      file_after demo_env (''talk'' @ ''_no_embeddings_transcript.txt'')
        (Transcript (full_transcript demo_document))
        (map_of (final_files (files \<lparr>files = no_files, calls = [], raised = []\<rparr>))
           (''talk'' @ ''_no_embeddings_transcript.txt''))"
    by (elim conjE)
  then have txt_f: "map_of (final_files (files (snd ?run))) ''talk_no_embeddings_transcript.txt'' =
      Some (Transcript (ascii ''hello bye''))"
    by (simp only: before after transcript) simp
  from all have "map_of (final_files (files (snd ?run))) (''talk'' @ ''_final_output.json'') =
      map_of (final_files (files \<lparr>files = no_files, calls = [], raised = []\<rparr>))
        (''talk'' @ ''_final_output.json'')"
    by (elim conjE)
  then have full: "map_of (final_files (files (snd ?run))) ''talk_final_output.json'' = None"
    by (simp only: before) simp
  from demo_run simp_segs rows json_f csv_f txt_f full show ?thesis
    by (intro conjI)
qed

section \<open>Claims on resuming and on failing steps\<close>

lemma pipeline_steps_all: "s \<in> set pipeline_steps"
  by (cases s) (simp_all add: pipeline_steps_def)

lemma not_loaded_not_Valid:
  assumes "slot_of s get upd" and "load_intermediate_json (get fs) = None"
  shows "record_status fs s \<noteq> Valid"
  using assms by (auto simp: slot_of_def load_None)

text \<open>
  Claim C4: when the cache holds a record for each of the first \<open>k\<close> steps (for step 1,
  the WAV file), \<open>run_full_pipeline\<close> calls the computation of none of them: every call
  it makes belongs to a later step, and the records of the first \<open>k\<close> steps are still
  there afterwards. A step whose file holds a record returns that record and leaves the
  state as it is, whatever its computation would give.
\<close>

theorem cached_steps_not_computed:
  assumes "\<forall>s \<in> set (take k pipeline_steps). record_status (files st0) s = Valid"
  shows "(\<exists>new. calls (snd (run_full_pipeline env ib fb m st0)) = calls st0 @ new \<and>
              set new \<subseteq> set (drop k pipeline_steps)) \<and>
         (\<forall>s \<in> set (take k pipeline_steps).
            record_status (files (snd (run_full_pipeline env ib fb m st0))) s = Valid) \<and>
         (get (files st) = Some (Parsed d) \<longrightarrow>
            load_or_compute env fb s' get upd c st = (Inr (Value d), st))"
proof -
  let ?S = "set (take k pipeline_steps)"
  define W where "W st \<longleftrightarrow> (\<forall>s \<in> ?S. record_status (files st) s = Valid) \<and>
     (\<exists>new. calls st = calls st0 @ new \<and> set new \<inter> ?S = {})" for st :: state
  define K where "K r \<longleftrightarrow> W (snd r)" for r :: "outcome \<times> state"
  have init: "W st0" using assms by (simp add: W_def)
  have stop: "K (Empty_dict, st)" if "W st" for st
    using that by (simp add: K_def)
  have called: "W (st\<lparr>calls := calls st @ [s]\<rparr>)" "W (st\<lparr>calls := calls st @ [s], raised := r\<rparr>)"
    if "W st" and "record_status (files st) s \<noteq> Valid" for st s r
  proof -
    from that have "s \<notin> ?S" by (auto simp: W_def)
    with that(1) show "W (st\<lparr>calls := calls st @ [s]\<rparr>)"
      "W (st\<lparr>calls := calls st @ [s], raised := r\<rparr>)"
      by (auto simp: W_def)
  qed
  have step: "case r of Inl e \<Rightarrow> K (Empty_dict, st') | Inr x \<Rightarrow> W st'"
    if w: "W st" and slot: "slot_of s get upd"
      and run: "load_or_compute env fb s get upd c st = (r, st')"
    for s and get :: "files \<Rightarrow> 'r json_file option" and upd c st st'
      and r :: "error + 'r loaded"
  proof (rule step_caseI [where P = "W st'"])
    from run show "W st'"
    proof (cases rule: load_or_compute_cases)
      case (loaded l)
      with w show ?thesis by simp
    next
      case (raised e)
      from not_loaded_not_Valid [OF slot raised(1)] w raised(4) show ?thesis
        by (simp add: called)
    next
      case (unsaved d e)
      from not_loaded_not_Valid [OF slot unsaved(1)] w unsaved(5) show ?thesis
        by (simp add: called)
    next
      case (computed d)
      from not_loaded_not_Valid [OF slot computed(1)] w have s: "s \<notin> ?S"
        by (auto simp: W_def)
      have "record_status (files st') s' = record_status (files st) s'" if "s' \<in> ?S" for s'
      proof -
        from that s have "s' \<noteq> s" by blast
        with slot have "record_status (upd (\<lambda>old. saved_as env fb s d (get (files st))) (files st)) s' =
            record_status (files st) s'"
          by (simp add: slot_of_def)
        with computed show ?thesis by simp
      qed
      with w s computed(5) show ?thesis by (auto simp: W_def)
    qed
  qed (simp_all add: stop)
  have "K (run_full_pipeline env ib fb m st0)"
  proof (rule run_full_pipeline_rule [where ?J1.0 = W and ?J2.0 = W and ?J3.0 = W and ?J4.0 = W
        and ?J5.0 = W and ?J6.0 = W and ?J7.0 = W and ?J8.0 = W and ?J9.0 = W])
    fix p st' assume "preprocess_audio env fb m st0 = (p, st')"
    then have "W st'"
    proof (cases rule: preprocess_audio_cases)
      case (no_directory e)
      with init show ?thesis by (simp add: W_def)
    next
      case (present w)
      with init show ?thesis by simp
    next
      case failed
      then have "record_status (files st0) Trimmed_wav \<noteq> Valid" by simp
      with init failed(4) show ?thesis by (simp add: called)
    next
      case broken_off
      then have "record_status (files st0) Trimmed_wav \<noteq> Valid" by simp
      with init have "Trimmed_wav \<notin> ?S" by (auto simp: W_def)
      with init broken_off show ?thesis by (auto simp: W_def record_status_updates)
    next
      case (exported a)
      then have "record_status (files st0) Trimmed_wav \<noteq> Valid" by simp
      with init have "Trimmed_wav \<notin> ?S" by (auto simp: W_def)
      with init exported show ?thesis by (auto simp: W_def record_status_updates)
    qed
    then show "case p of Inl e \<Rightarrow> K (Uncaught e, st') | Inr None \<Rightarrow> K (Empty_dict, st')
         | Inr (Some path) \<Rightarrow> W st'"
      by (simp add: K_def split: option.splits sum.splits)
  next
    fix wr ds af te tem sem kw st assume w: "W st"
    obtain out ff where "finish env ib fb wr ds af te tem sem kw st =
        (out, st\<lparr>files := (files st)\<lparr>final_files := ff\<rparr>\<rparr>)"
      using finish_state by blast
    with w show "K (finish env ib fb wr ds af te tem sem kw st)"
      by (simp add: K_def W_def record_status_updates)
  qed (rule stop step slots | assumption)+
  then obtain new where new: "calls (snd (run_full_pipeline env ib fb m st0)) = calls st0 @ new"
    and disj: "set new \<inter> ?S = {}"
    and valid: "\<forall>s \<in> ?S. record_status (files (snd (run_full_pipeline env ib fb m st0))) s = Valid"
    by (auto simp: K_def W_def)
  have "set (take k pipeline_steps) \<union> set (drop k pipeline_steps) = set pipeline_steps"
    by (metis append_take_drop_id set_append)
  with pipeline_steps_all have "x \<in> ?S \<or> x \<in> set (drop k pipeline_steps)" for x
    by blast
  with disj have "set new \<subseteq> set (drop k pipeline_steps)" by blast
  moreover have "load_or_compute env fb s' get upd c st = (Inr (Value d), st)"
    if "get (files st) = Some (Parsed d)"
    using that by (simp add: load_or_compute_def)
  ultimately show ?thesis using new valid by blast
qed

text \<open>With four steps in the cache, the five steps after them are computed and no other.\<close>

theorem cached_steps_not_computed_witness:
  "calls (snd (run_full_pipeline demo_env ''talk.mp3'' ''talk'' 300
      \<lparr>files = four_cached, calls = [], raised = []\<rparr>)) =
     [Audio_features, Text_embeddings, Text_emotions, Speech_emotions, Keywords] \<and>
   set (calls (snd (run_full_pipeline demo_env ''talk.mp3'' ''talk'' 300
      \<lparr>files = four_cached, calls = [], raised = []\<rparr>))) \<subseteq> set (drop 4 pipeline_steps) \<and>
   record_status four_cached Mapped_segments = Valid"
proof -
  let ?st0 = "\<lparr>files = four_cached, calls = [], raised = []\<rparr>"
  have cached: "\<forall>s \<in> set (take 4 pipeline_steps). record_status (files ?st0) s = Valid"
    by (simp add: pipeline_steps_def four_cached_def no_files_def)
  have "\<exists>new. calls (snd (run_full_pipeline demo_env ''talk.mp3'' ''talk'' 300 ?st0)) =
            calls ?st0 @ new \<and> set new \<subseteq> set (drop 4 pipeline_steps)"
    using cached_steps_not_computed [OF cached, of demo_env "''talk.mp3''" "''talk''" 300]
    by (rule conjunct1)
  then have "set (calls (snd (run_full_pipeline demo_env ''talk.mp3'' ''talk'' 300 ?st0))) \<subseteq>
          set (drop 4 pipeline_steps)"
    by auto
  moreover have "calls (snd (run_full_pipeline demo_env ''talk.mp3'' ''talk'' 300 ?st0)) =
     [Audio_features, Text_embeddings, Text_emotions, Speech_emotions, Keywords]"
    by (simp add: run_defs four_cached_def demo_mapped_def eval_defs upt_rec)
  moreover have "record_status four_cached Mapped_segments = Valid"
    by (simp add: four_cached_def no_files_def)
  ultimately show ?thesis by blast
qed




section \<open>Damaged records\<close>

lemma spoil_simps:
  "spoil b None = Some (damaged_file b)"
  "spoil b (Some y) = Some y"
  "load_intermediate_json (spoil b x) = load_intermediate_json x"
  "spoil b (saved_as env fb s d x) = saved_as env fb s d (spoil b x)"
  by (cases b; auto simp: spoil_def saved_as_def split: option.splits write_outcome.splits)+

lemma load_or_compute_saved_as:
  "load_or_compute env fb s get upd c st =
     (case load_intermediate_json (get (files st)) of
        Some loaded \<Rightarrow> (Inr loaded, st)
      | None \<Rightarrow>
          (case c of
             Inl e \<Rightarrow> (Inl e, st\<lparr>calls := calls st @ [s], raised := raised st @ [s]\<rparr>)
           | Inr data \<Rightarrow>
               (case makedirs env (fb @ ''_'' @ step_name s @ ''.json'') of
                  Some e \<Rightarrow> (Inl e, st\<lparr>calls := calls st @ [s]\<rparr>)
                | None \<Rightarrow>
                    (Inr (Value data),
                     st\<lparr>files := upd (\<lambda>old. saved_as env fb s data (get (files st))) (files st),
                        calls := calls st @ [s]\<rparr>))))"
  by (simp add: load_or_compute_def save_intermediate_json_def saved_as_def
      split: option.splits sum.splits)

lemma load_or_compute_damage:
  "load_or_compute env fb Whisper_raw whisper_raw_json whisper_raw_json_update c1
       (damage_state b s st) =
     apsnd (damage_state b s)
       (load_or_compute env fb Whisper_raw whisper_raw_json whisper_raw_json_update c1 st)"
  "load_or_compute env fb Diarization_raw diarization_raw_json diarization_raw_json_update c2
       (damage_state b s st) =
     apsnd (damage_state b s)
       (load_or_compute env fb Diarization_raw diarization_raw_json diarization_raw_json_update c2 st)"
  "load_or_compute env fb Mapped_segments mapped_segments_json mapped_segments_json_update c3
       (damage_state b s st) =
     apsnd (damage_state b s)
       (load_or_compute env fb Mapped_segments mapped_segments_json mapped_segments_json_update c3 st)"
  "load_or_compute env fb Audio_features audio_features_json audio_features_json_update c4
       (damage_state b s st) =
     apsnd (damage_state b s)
       (load_or_compute env fb Audio_features audio_features_json audio_features_json_update c4 st)"
  "load_or_compute env fb Text_embeddings text_embeddings_json text_embeddings_json_update c5
       (damage_state b s st) =
     apsnd (damage_state b s)
       (load_or_compute env fb Text_embeddings text_embeddings_json text_embeddings_json_update c5 st)"
  "load_or_compute env fb Text_emotions text_emotions_json text_emotions_json_update c6
       (damage_state b s st) =
     apsnd (damage_state b s)
       (load_or_compute env fb Text_emotions text_emotions_json text_emotions_json_update c6 st)"
  "load_or_compute env fb Speech_emotions speech_emotions_json speech_emotions_json_update c7
       (damage_state b s st) =
     apsnd (damage_state b s)
       (load_or_compute env fb Speech_emotions speech_emotions_json speech_emotions_json_update c7 st)"
  "load_or_compute env fb Keywords keywords_json keywords_json_update c8
       (damage_state b s st) =
     apsnd (damage_state b s)
       (load_or_compute env fb Keywords keywords_json keywords_json_update c8 st)"
  by (cases s; simp add: load_or_compute_saved_as damage_state_def spoil_simps
        split: option.splits sum.splits)+

lemma damage_fields:
  "trimmed_wav (damage b s fs) = trimmed_wav fs"
  "final_files (damage b s fs) = final_files fs"
  by (cases s; simp)+

lemma preprocess_audio_damage:
  "preprocess_audio env fb m (damage_state b s st) =
     apsnd (damage_state b s) (preprocess_audio env fb m st)"
  by (cases s;
      simp add: preprocess_audio_def damage_state_def Let_def
        split: option.splits sum.splits write_outcome.splits)

lemma write_final_damage:
  "write_final env path content (damage b s fs) = damage b s (write_final env path content fs)"
  by (cases s; simp add: write_final_def split: write_outcome.splits)

lemma save_final_results_damage:
  "save_final_results env base doc segs (damage b s fs) =
     map_sum (\<lambda>e. e) (damage b s) (save_final_results env base doc segs fs)"
  by (simp add: save_final_results_def Let_def write_final_damage split: option.splits)

lemma finish_damage:
  "finish env ib fb wr ds af te tem sem kw (damage_state b s st) =
     apsnd (damage_state b s) (finish env ib fb wr ds af te tem sem kw st)"
proof (cases "af = Scalar \<or> te = Scalar \<or> tem = Scalar \<or> sem = Scalar \<or> kw = Scalar")
  case True
  then show ?thesis by (simp add: finish_scalar)
next
  case False
  then obtain af' te' tem' sem' kw' where "af = Value af'" "te = Value te'" "tem = Value tem'"
        "sem = Value sem'" "kw = Value kw'"
    by (meson loaded.exhaust)
  then show ?thesis
    by (simp add: finish_eq Let_def damage_state_def save_final_results_damage
        split: sum.splits)
qed

lemma try_step_commute:
  assumes "\<And>x st. continue x (f st) = apsnd f (continue x st)"
  shows "try_step (apsnd f r) continue = apsnd f (try_step r continue)"
proof (cases r)
  case (Pair res st)
  then show ?thesis using assms by (cases res) (simp_all add: try_step_def)
qed

lemma use_loaded_commute: "use_loaded (apsnd f r) = apsnd f (use_loaded r)"
proof (cases r)
  case (Pair res st)
  then show ?thesis by (cases res) (simp_all add: use_loaded_def)
qed

lemma enrich_damage:
  "enrich env ib fb wav wr ds texts (damage_state b s st) =
     apsnd (damage_state b s) (enrich env ib fb wav wr ds texts st)"
  unfolding enrich_def
  by (simp only: load_or_compute_damage)
     ((rule try_step_commute, simp only: load_or_compute_damage finish_damage)+)

lemma run_full_pipeline_damage:
  "run_full_pipeline env ib fb m (damage_state b s st) =
     apsnd (damage_state b s) (run_full_pipeline env ib fb m st)"
proof -
  have tail: "try_step (use_loaded (load_or_compute env fb Whisper_raw whisper_raw_json
                 whisper_raw_json_update (transcribe_audio env wav) (damage_state b s st1)))
       (\<lambda>whisper_result st2.
     try_step (use_loaded (load_or_compute env fb Diarization_raw diarization_raw_json
                 diarization_raw_json_update (perform_speaker_diarization env wav) st2))
       (\<lambda>diarization_list st3.
     try_step (use_loaded (load_or_compute env fb Mapped_segments mapped_segments_json
                 mapped_segments_json_update
                 (map_speakers_to_segments (float_ops env) (result_segments whisper_result)
                    (itertracks env diarization_list)) st3))
       (\<lambda>diarized_segments st4.
     try_step (collect (dict_item ''text'') diarized_segments, st4)
       (\<lambda>texts st4.
          if diarized_segments = [] then (Empty_dict, st4)
          else enrich env ib fb wav whisper_result diarized_segments texts st4)))) =
    apsnd (damage_state b s)
     (try_step (use_loaded (load_or_compute env fb Whisper_raw whisper_raw_json
                 whisper_raw_json_update (transcribe_audio env wav) st1))
       (\<lambda>whisper_result st2.
     try_step (use_loaded (load_or_compute env fb Diarization_raw diarization_raw_json
                 diarization_raw_json_update (perform_speaker_diarization env wav) st2))
       (\<lambda>diarization_list st3.
     try_step (use_loaded (load_or_compute env fb Mapped_segments mapped_segments_json
                 mapped_segments_json_update
                 (map_speakers_to_segments (float_ops env) (result_segments whisper_result)
                    (itertracks env diarization_list)) st3))
       (\<lambda>diarized_segments st4.
     try_step (collect (dict_item ''text'') diarized_segments, st4)
       (\<lambda>texts st4.
          if diarized_segments = [] then (Empty_dict, st4)
          else enrich env ib fb wav whisper_result diarized_segments texts st4)))))"
    for wav st1
  proof -
    have last: "try_step (collect (dict_item ''text'') ds, damage_state b s st4)
       (\<lambda>texts st4.
          if ds = [] then (Empty_dict, st4)
          else enrich env ib fb wav wr ds texts st4) =
      apsnd (damage_state b s)
       (try_step (collect (dict_item ''text'') ds, st4)
         (\<lambda>texts st4.
            if ds = [] then (Empty_dict, st4)
            else enrich env ib fb wav wr ds texts st4))" for ds wr st4
      by (cases "collect (dict_item ''text'') ds") (simp_all add: try_step_def enrich_damage)
    show ?thesis
      by (simp only: load_or_compute_damage use_loaded_commute)
         ((rule try_step_commute, simp only: load_or_compute_damage use_loaded_commute last)+)
  qed
  obtain p st1 where p: "preprocess_audio env fb m st = (p, st1)"
    by (cases "preprocess_audio env fb m st")
  then have pd: "preprocess_audio env fb m (damage_state b s st) = (p, damage_state b s st1)"
    by (simp add: preprocess_audio_damage)
  have wav: "trimmed_wav (files (damage_state b s st1)) = trimmed_wav (files st1)"
    by (simp add: damage_state_def damage_fields)
  show ?thesis
  proof (cases p)
    case (Inl e)
    with p pd show ?thesis by (simp add: run_full_pipeline_def)
  next
    case (Inr path_opt)
    show ?thesis
    proof (cases path_opt)
      case None
      with p pd Inr show ?thesis by (simp add: run_full_pipeline_def)
    next
      case (Some path)
      show ?thesis
      proof (cases "trimmed_wav (files st1)")
        case None
        with p pd Inr Some wav show ?thesis by (simp add: run_full_pipeline_def)
      next
        case wav': (Some wav')
        with p pd Inr Some wav tail [of wav' st1] show ?thesis
          by (simp add: run_full_pipeline_def)
      qed
    qed
  qed
qed

text \<open>
  A run that returns a document has called every step whose record was not there, and
  has written the record when the write succeeds.
\<close>

lemma missing_record_computed:
  assumes s: "s \<noteq> Trimmed_wav" and missing: "record_status (files st0) s = Missing"
    and run: "run_full_pipeline env ib fb m st0 = (Document d, st')"
  shows "(\<exists>new. calls st' = calls st0 @ new \<and> s \<in> set new) \<and>
         (write_file env (fb @ ''_'' @ step_name s @ ''.json'') = Written \<longrightarrow>
            record_status (files st') s = Valid)"
proof -
  let ?wok = "write_file env (fb @ ''_'' @ step_name s @ ''.json'') = Written"
  define J where "J A st \<longleftrightarrow>
     (\<exists>new. calls st = calls st0 @ new \<and> (s \<in> A \<longrightarrow> s \<in> set new)) \<and>
     (s \<in> A \<longrightarrow> ?wok \<longrightarrow> record_status (files st) s = Valid) \<and>
     (s \<notin> A \<longrightarrow> record_status (files st) s = Missing)" for A and st :: state
  define K where "K r \<longleftrightarrow> (\<forall>d st'. r = (Document d, st') \<longrightarrow>
     (\<exists>new. calls st' = calls st0 @ new \<and> s \<in> set new) \<and>
     (?wok \<longrightarrow> record_status (files st') s = Valid))" for r :: "outcome \<times> state"
  have stop: "K (Empty_dict, st)" for st
    by (simp add: K_def)
  have step: "case r of Inl e \<Rightarrow> K (Empty_dict, st') | Inr x \<Rightarrow> J (insert s' A) st'"
    if j: "J A st" and slot: "slot_of s' get upd"
      and run: "load_or_compute env fb s' get upd c st = (r, st')"
    for s' A and get :: "files \<Rightarrow> 'r json_file option" and upd c st st'
      and r :: "error + 'r loaded"
    using run
  proof (cases rule: load_or_compute_cases)
    case (loaded x)
    then have "get (files st) \<noteq> None" by (cases "get (files st)") simp_all
    with slot have "record_status (files st) s' \<noteq> Missing"
      by (simp add: slot_of_def json_state_Missing)
    with j have "s = s' \<Longrightarrow> s \<in> A"
      by (auto simp: J_def)
    with j loaded show ?thesis
      by (auto simp: J_def)
  next
    case (raised e)
    then show ?thesis by (simp add: stop)
  next
    case (unsaved x e)
    then show ?thesis by (simp add: stop)
  next
    case (computed x)
    show ?thesis
    proof (cases "s = s'")
      case True
      have "record_status (files st') s = json_state (saved_as env fb s' x (get (files st)))"
        using slot computed(5) True by (simp add: slot_of_def)
      moreover have "?wok \<Longrightarrow> saved_as env fb s' x (get (files st)) = Some (Parsed x)"
        using True by (simp add: saved_as_def)
      ultimately have "?wok \<longrightarrow> record_status (files st') s = Valid"
        by simp
      with j computed True show ?thesis
        by (auto simp: J_def)
    next
      case False
      with slot have "record_status (upd (\<lambda>old. saved_as env fb s' x (get (files st))) (files st)) s =
          record_status (files st) s"
        by (simp add: slot_of_def)
      with computed have "record_status (files st') s = record_status (files st) s"
        by simp
      with j computed False show ?thesis
        by (auto simp: J_def)
    qed
  qed
  have "K (run_full_pipeline env ib fb m st0)"
  proof (rule run_full_pipeline_rule [where
        ?J1.0 = "J {Trimmed_wav}"
        and ?J2.0 = "J (insert Whisper_raw {Trimmed_wav})"
        and ?J3.0 = "J (insert Diarization_raw (insert Whisper_raw {Trimmed_wav}))"
        and ?J4.0 = "J (insert Mapped_segments (insert Diarization_raw (insert Whisper_raw {Trimmed_wav})))"
        and ?J5.0 = "J (insert Audio_features (insert Mapped_segments (insert Diarization_raw
                       (insert Whisper_raw {Trimmed_wav}))))"
        and ?J6.0 = "J (insert Text_embeddings (insert Audio_features (insert Mapped_segments
                       (insert Diarization_raw (insert Whisper_raw {Trimmed_wav})))))"
        and ?J7.0 = "J (insert Text_emotions (insert Text_embeddings (insert Audio_features
                       (insert Mapped_segments (insert Diarization_raw
                       (insert Whisper_raw {Trimmed_wav}))))))"
        and ?J8.0 = "J (insert Speech_emotions (insert Text_emotions (insert Text_embeddings
                       (insert Audio_features (insert Mapped_segments (insert Diarization_raw
                       (insert Whisper_raw {Trimmed_wav})))))))"
        and ?J9.0 = "J (insert Keywords (insert Speech_emotions (insert Text_emotions
                       (insert Text_embeddings (insert Audio_features (insert Mapped_segments
                       (insert Diarization_raw (insert Whisper_raw {Trimmed_wav}))))))))"])
    fix p st' assume pre_run: "preprocess_audio env fb m st0 = (p, st')"
    then have calls: "calls st' = calls st0 \<or> calls st' = calls st0 @ [Trimmed_wav]"
      by (cases rule: preprocess_audio_cases) simp_all
    from pre_run have same: "record_status (files st') s = record_status (files st0) s"
      by (cases rule: preprocess_audio_cases) (use s in \<open>simp_all add: record_status_updates\<close>)
    from calls have pre: "\<exists>new. calls st' = calls st0 @ new"
    proof
      assume "calls st' = calls st0"
      then have "calls st' = calls st0 @ []" by simp
      then show ?thesis ..
    next
      assume "calls st' = calls st0 @ [Trimmed_wav]"
      then show ?thesis ..
    qed
    from s have "s \<notin> {Trimmed_wav}" by simp
    moreover from same missing have "record_status (files st') s = Missing" by simp
    ultimately have "J {Trimmed_wav} st'"
      unfolding J_def using pre by blast
    then show "case p of Inl e \<Rightarrow> K (Uncaught e, st') | Inr None \<Rightarrow> K (Empty_dict, st')
         | Inr (Some path) \<Rightarrow> J {Trimmed_wav} st'"
      by (simp add: K_def split: option.splits sum.splits)
  next
    fix wr ds af te tem sem kw st
    assume j: "J (insert Keywords (insert Speech_emotions (insert Text_emotions
                       (insert Text_embeddings (insert Audio_features (insert Mapped_segments
                       (insert Diarization_raw (insert Whisper_raw {Trimmed_wav})))))))) st"
    have "s \<in> insert Keywords (insert Speech_emotions (insert Text_emotions
                       (insert Text_embeddings (insert Audio_features (insert Mapped_segments
                       (insert Diarization_raw (insert Whisper_raw {Trimmed_wav})))))))"
      by (cases s) simp_all
    with j have reached: "\<exists>new. calls st = calls st0 @ new \<and> s \<in> set new"
      "?wok \<longrightarrow> record_status (files st) s = Valid"
      unfolding J_def by blast+
    obtain out ff where "finish env ib fb wr ds af te tem sem kw st =
        (out, st\<lparr>files := (files st)\<lparr>final_files := ff\<rparr>\<rparr>)"
      using finish_state by blast
    with reached show "K (finish env ib fb wr ds af te tem sem kw st)"
      by (simp add: K_def record_status_updates)
  qed (rule stop step slots | assumption)+
  then show ?thesis unfolding K_def using run by blast
qed

lemma spoil_present: "x \<noteq> None \<Longrightarrow> spoil b x = x"
  by (cases x) (simp_all add: spoil_def)

lemma damage_present: "record_status fs s \<noteq> Missing \<Longrightarrow> damage b s fs = fs"
  by (cases s; cases fs; simp add: json_state_Missing spoil_present)

lemma json_state_damaged_file: "json_state (Some (damaged_file b)) = Damaged"
  by (cases b) simp_all

lemma damage_missing:
  "s \<noteq> Trimmed_wav \<Longrightarrow> record_status fs s = Missing \<Longrightarrow> record_status (damage b s fs) s = Damaged"
  by (cases s; simp add: json_state_Missing spoil_simps json_state_damaged_file)

text \<open>
  Claim C3, for the eight steps that keep a JSON record and for a file that cannot be
  read, does not parse or holds \<open>null\<close>: reading it returns \<open>None\<close>, as for a missing
  file, and raises nothing. A run that finds the record of a step damaged in this way
  returns what the run that finds it missing returns, and calls the same steps. When
  that run returns a document, the step has been computed, and if its file is written
  the damaged file has been overwritten with the fresh record: the files are then those
  of the run that found the record missing.
\<close>

theorem damaged_record_as_absent:
  assumes "s \<noteq> Trimmed_wav" and "record_status (files st) s = Missing"
  shows "record_status (damage b s (files st)) s = Damaged \<and>
         load_intermediate_json (spoil b None) = load_intermediate_json None \<and>
         fst (run_full_pipeline env ib fb m (st\<lparr>files := damage b s (files st)\<rparr>)) =
           fst (run_full_pipeline env ib fb m st) \<and>
         calls (snd (run_full_pipeline env ib fb m (st\<lparr>files := damage b s (files st)\<rparr>))) =
           calls (snd (run_full_pipeline env ib fb m st)) \<and>
         (\<forall>d. fst (run_full_pipeline env ib fb m st) = Document d \<longrightarrow>
            (\<exists>new. calls (snd (run_full_pipeline env ib fb m (st\<lparr>files := damage b s (files st)\<rparr>))) =
                     calls st @ new \<and> s \<in> set new) \<and>
            (write_file env (fb @ ''_'' @ step_name s @ ''.json'') = Written \<longrightarrow>
               record_status
                 (files (snd (run_full_pipeline env ib fb m (st\<lparr>files := damage b s (files st)\<rparr>)))) s =
                 Valid \<and>
               files (snd (run_full_pipeline env ib fb m (st\<lparr>files := damage b s (files st)\<rparr>))) =
                 files (snd (run_full_pipeline env ib fb m st))))"
proof -
  let ?run = "run_full_pipeline env ib fb m st"
  let ?run_d = "run_full_pipeline env ib fb m (st\<lparr>files := damage b s (files st)\<rparr>)"
  let ?wok = "write_file env (fb @ ''_'' @ step_name s @ ''.json'') = Written"
  have comm: "?run_d = apsnd (damage_state b s) ?run"
    using run_full_pipeline_damage [of env ib fb m b s st] by (simp add: damage_state_def)
  then have out: "fst ?run_d = fst ?run"
    and st_d: "snd ?run_d = damage_state b s (snd ?run)"
    by simp_all
  from st_d have calls: "calls (snd ?run_d) = calls (snd ?run)"
    and files: "files (snd ?run_d) = damage b s (files (snd ?run))"
    by (simp_all add: damage_state_def)
  have complete: "(\<exists>new. calls (snd ?run_d) = calls st @ new \<and> s \<in> set new) \<and>
            (?wok \<longrightarrow>
               record_status (files (snd ?run_d)) s = Valid \<and>
               files (snd ?run_d) = files (snd ?run))"
    if "fst ?run = Document d" for d
  proof -
    from that have run: "?run = (Document d, snd ?run)"
      by (metis prod.collapse)
    from missing_record_computed [OF assms run]
    have new: "\<exists>new. calls (snd ?run) = calls st @ new \<and> s \<in> set new"
      and valid: "?wok \<longrightarrow> record_status (files (snd ?run)) s = Valid"
      by blast+
    have over: "files (snd ?run_d) = files (snd ?run) \<and> record_status (files (snd ?run_d)) s = Valid"
      if "?wok"
    proof -
      from that valid have v: "record_status (files (snd ?run)) s = Valid" by simp
      then have "damage b s (files (snd ?run)) = files (snd ?run)"
        by (intro damage_present) simp
      with files v show ?thesis by simp
    qed
    from new calls have "\<exists>new. calls (snd ?run_d) = calls st @ new \<and> s \<in> set new"
      by (simp only:)
    with over show ?thesis by blast
  qed
  have "load_intermediate_json (spoil b None) = load_intermediate_json None"
    by (cases b) (simp_all add: spoil_def)
  with damage_missing [OF assms] out calls complete show ?thesis
    by blast
qed

text \<open>
  The example of the specification: the record of the keyword step does not parse. The
  run returns the document of the undisturbed run and leaves a record in the file.
\<close>

theorem damaged_record_as_absent_witness:
  "fst (run_full_pipeline demo_env ''talk.mp3'' ''talk'' 300
      \<lparr>files = no_files\<lparr>keywords_json := Some Unparseable\<rparr>, calls = [], raised = []\<rparr>) =
     Document demo_document \<and>
   keywords_json (files (snd (run_full_pipeline demo_env ''talk.mp3'' ''talk'' 300
      \<lparr>files = no_files\<lparr>keywords_json := Some Unparseable\<rparr>, calls = [], raised = []\<rparr>))) =
     Some (Parsed [[''hello''], [''hello'']]) \<and>
   record_status (no_files\<lparr>keywords_json := Some Unparseable\<rparr>) Keywords = Damaged"
proof -
  let ?st = "\<lparr>files = no_files, calls = [], raised = []\<rparr>"
  have missing: "record_status (files ?st) Keywords = Missing"
    by (simp add: no_files_def)
  have damaged: "?st\<lparr>files := damage Not_json Keywords (files ?st)\<rparr> =
      \<lparr>files = no_files\<lparr>keywords_json := Some Unparseable\<rparr>, calls = [], raised = []\<rparr>"
    by (simp add: no_files_def spoil_def)
  have eq: "damage Not_json Keywords (files ?st) = no_files\<lparr>keywords_json := Some Unparseable\<rparr>"
    by (simp add: no_files_def spoil_def)
  have not_wav: "Keywords \<noteq> Trimmed_wav" by simp
  note all = damaged_record_as_absent [OF not_wav missing, of Not_json demo_env "''talk.mp3''" "''talk''" 300]
  from all have "record_status (damage Not_json Keywords (files ?st)) Keywords = Damaged"
    by (rule conjunct1)
  then have d: "record_status (no_files\<lparr>keywords_json := Some Unparseable\<rparr>) Keywords = Damaged"
    by (simp only: eq)
  from all have "fst (run_full_pipeline demo_env ''talk.mp3'' ''talk'' 300
           (?st\<lparr>files := damage Not_json Keywords (files ?st)\<rparr>)) =
         fst (run_full_pipeline demo_env ''talk.mp3'' ''talk'' 300 ?st)"
    by (elim conjE)
  then have "fst (run_full_pipeline demo_env ''talk.mp3'' ''talk'' 300
      \<lparr>files = no_files\<lparr>keywords_json := Some Unparseable\<rparr>, calls = [], raised = []\<rparr>) =
     Document demo_document"
    by (simp only: damaged demo_run)
  note this d
  moreover have "keywords_json (files (snd (run_full_pipeline demo_env ''talk.mp3'' ''talk'' 300
      \<lparr>files = no_files\<lparr>keywords_json := Some Unparseable\<rparr>, calls = [], raised = []\<rparr>))) =
     Some (Parsed [[''hello''], [''hello'']])"
    by (simp add: run_defs eval_defs upt_rec)
  ultimately show ?thesis by blast
qed

text \<open>
  A damaged WAV file is not treated as absent: it is there, so \<open>preprocess_audio\<close>
  computes nothing and the file stays as it is; the recogniser raises on it and the run
  returns \<open>{}\<close>. Nor is a record that parses to a number: the keyword step loads it,
  computes nothing and leaves the file, and \<open>len\<close> raises a \<open>TypeError\<close> that leaves
  \<open>run_full_pipeline\<close>. With the file absent, either run returns the document.
\<close>

theorem damaged_wav_and_number_record_counterexample:
  "run_full_pipeline demo_env ''talk.mp3'' ''talk'' 300
      \<lparr>files = no_files\<lparr>trimmed_wav := Some Damaged_wav\<rparr>, calls = [], raised = []\<rparr> =
     (Empty_dict, \<lparr>files = no_files\<lparr>trimmed_wav := Some Damaged_wav\<rparr>,
                   calls = [Whisper_raw], raised = [Whisper_raw]\<rparr>) \<and>
   record_status (no_files\<lparr>trimmed_wav := Some Damaged_wav\<rparr>) Trimmed_wav = Damaged \<and>
   fst (run_full_pipeline demo_env ''talk.mp3'' ''talk'' 300
      \<lparr>files = no_files\<lparr>keywords_json := Some Holds_scalar\<rparr>, calls = [], raised = []\<rparr>) =
     Uncaught TypeError \<and>
   calls (snd (run_full_pipeline demo_env ''talk.mp3'' ''talk'' 300
      \<lparr>files = no_files\<lparr>keywords_json := Some Holds_scalar\<rparr>, calls = [], raised = []\<rparr>)) =
     [Trimmed_wav, Whisper_raw, Diarization_raw, Mapped_segments, Audio_features,
      Text_embeddings, Text_emotions, Speech_emotions] \<and>
   keywords_json (files (snd (run_full_pipeline demo_env ''talk.mp3'' ''talk'' 300
      \<lparr>files = no_files\<lparr>keywords_json := Some Holds_scalar\<rparr>, calls = [], raised = []\<rparr>))) =
     Some Holds_scalar \<and>
   fst (run_full_pipeline demo_env ''talk.mp3'' ''talk'' 300
      \<lparr>files = no_files, calls = [], raised = []\<rparr>) = Document demo_document"
  by (simp add: run_defs eval_defs upt_rec demo_document_def)

section \<open>Claim on the audio normalisers\<close>




end
